theory Spec2Isabelle
  imports Main
begin

section \<open>Treasure hunt: the game-state engine of \<open>treasure-hunt-game.py\<close>\<close>

text \<open>
  The class \<open>TreasureHuntGame\<close> becomes a record that every method takes and returns.
  A Python exception is a value of type \<open>error\<close> on the left of a sum. Text written to
  the terminal with \<open>print\<close> is not part of the game state and is left out, except in
  \<open>display_grid\<close>, whose whole purpose it is. Readings of the wall clock
  (\<open>datetime.now()\<close>) and the numbers drawn by \<open>random.randint\<close> come from outside the
  program, so they are arguments of the functions that consume them.
\<close>

subsection \<open>Python values\<close>

datatype error =
    IndexError | KeyError | ValueError | TypeError | AttributeError
  | FileNotFoundError | JSONDecodeError
  | Untyped

definition bindE :: "error + 'a \<Rightarrow> ('a \<Rightarrow> error + 'b) \<Rightarrow> error + 'b" where
  "bindE m f = (case m of Inl e \<Rightarrow> Inl e | Inr x \<Rightarrow> f x)"

text \<open>\<open>xs[i]\<close>: a negative index counts from the end, an index out of range raises.\<close>

definition py_index :: "'a list \<Rightarrow> int \<Rightarrow> error + nat" where
  "py_index xs i =
     (if 0 \<le> i \<and> i < int (length xs) then Inr (nat i)
      else if i < 0 \<and> 0 \<le> int (length xs) + i then Inr (nat (int (length xs) + i))
      else Inl IndexError)"

definition py_get :: "'a list \<Rightarrow> int \<Rightarrow> error + 'a" where
  "py_get xs i = bindE (py_index xs i) (\<lambda>k. Inr (xs ! k))"

definition py_set :: "'a list \<Rightarrow> int \<Rightarrow> 'a \<Rightarrow> error + 'a list" where
  "py_set xs i v = bindE (py_index xs i) (\<lambda>k. Inr (xs[k := v]))"

text \<open>\<open>str(n)\<close> for an integer: decimal digits, with a minus sign when negative.\<close>

function str_nat :: "nat \<Rightarrow> string" where
  "str_nat n =
     (if n < 10 then [''0123456789'' ! n]
      else str_nat (n div 10) @ [''0123456789'' ! (n mod 10)])"
  by pat_completeness auto
termination
  by (relation "measure id") auto

definition str_int :: "int \<Rightarrow> string" where
  "str_int i = (if i < 0 then ''-'' @ str_nat (nat (- i)) else str_nat (nat i))"

text \<open>
  A \<open>datetime\<close> object, with the two renderings the program asks of it:
  \<open>strftime("%H:%M:%S")\<close> and \<open>strftime("%Y-%m-%d %H:%M:%S")\<close> (fields padded with zeros).
\<close>

record datetime =
  dt_year :: nat
  dt_month :: nat
  dt_day :: nat
  dt_hour :: nat
  dt_minute :: nat
  dt_second :: nat
  dt_microsecond :: nat

definition pad2 :: "nat \<Rightarrow> string" where
  "pad2 n = (if n < 10 then ''0'' @ str_nat n else str_nat n)"

definition pad4 :: "nat \<Rightarrow> string" where
  "pad4 n = replicate (4 - length (str_nat n)) CHR ''0'' @ str_nat n"

definition strftime_hms :: "datetime \<Rightarrow> string" where
  "strftime_hms t = pad2 (dt_hour t) @ '':'' @ pad2 (dt_minute t) @ '':'' @ pad2 (dt_second t)"

definition strftime_full :: "datetime \<Rightarrow> string" where
  "strftime_full t =
     pad4 (dt_year t) @ ''-'' @ pad2 (dt_month t) @ ''-'' @ pad2 (dt_day t) @ '' '' @ strftime_hms t"

subsection \<open>The game state\<close>

text \<open>
  The inventory dictionary has the keys \<open>"keys"\<close>, \<open>"shields"\<close> and \<open>"maps"\<close> from
  \<open>__init__\<close> on; \<open>use_map\<close> adds the key \<open>"used_map"\<close>, so that field is optional
  (\<open>None\<close>: the key is absent). A grid cell is the one-character string the source
  stores: \<open>' '\<close> empty, \<open>'T'\<close> treasure, \<open>'X'\<close> trap, \<open>'K'\<close> key, \<open>'S'\<close> shield,
  \<open>'M'\<close> map, \<open>'E'\<close> exit. The position is the two-element list \<open>[row, col]\<close>.
\<close>

record inventory =
  keys :: int
  shields :: int
  maps_inv :: int
  used_map :: "bool option"

type_synonym grid = "string list list"

record game =
  player_name :: string
  grid_size :: int
  score :: int
  moves :: int
  game_over :: bool
  start_time :: datetime
  grid :: grid
  player_pos :: "int \<times> int"
  inventory :: inventory
  game_log :: "string list"

text \<open>\<open>self.grid[r][c]\<close> and \<open>self.grid[r][c] = v\<close>; the rows are separate lists.\<close>

definition grid_get :: "grid \<Rightarrow> int \<Rightarrow> int \<Rightarrow> error + string" where
  "grid_get gr r c = bindE (py_get gr r) (\<lambda>row. py_get row c)"

definition grid_set :: "grid \<Rightarrow> int \<Rightarrow> int \<Rightarrow> string \<Rightarrow> error + grid" where
  "grid_set gr r c v =
     bindE (py_get gr r) (\<lambda>row. bindE (py_set row c v) (\<lambda>row'. py_set gr r row'))"

text \<open>\<open>_log_event\<close>; \<open>t\<close> is the clock reading the call takes.\<close>

definition log_event :: "datetime \<Rightarrow> string \<Rightarrow> game \<Rightarrow> game" where
  "log_event t event g = g\<lparr>game_log := game_log g @ [''['' @ strftime_hms t @ ''] '' @ event]\<rparr>"

definition coords :: "int \<times> int \<Rightarrow> string" where
  "coords p = ''('' @ str_int (fst p) @ '', '' @ str_int (snd p) @ '')''"

definition clear_cell :: "int \<times> int \<Rightarrow> game \<Rightarrow> error + game" where
  "clear_cell position g =
     bindE (grid_set (grid g) (fst position) (snd position) '' '') (\<lambda>gr. Inr (g\<lparr>grid := gr\<rparr>))"

subsection \<open>Moves and item interaction\<close>

text \<open>\<open>_handle_item_interaction(item, position)\<close>, branch by branch.\<close>

definition handle_item_interaction ::
    "datetime \<Rightarrow> string \<Rightarrow> int \<times> int \<Rightarrow> game \<Rightarrow> error + game" where
  "handle_item_interaction t item position g =
     (if item = ''T'' then
        clear_cell position
          (log_event t (''Found treasure at '' @ coords position) (g\<lparr>score := score g + 100\<rparr>))
      else if item = ''X'' then
        clear_cell position
          (if shields (inventory g) > 0 then
             log_event t (''Shield used against trap at '' @ coords position)
               (g\<lparr>inventory := (inventory g)\<lparr>shields := shields (inventory g) - 1\<rparr>\<rparr>)
           else
             log_event t (''Hit by trap at '' @ coords position) (g\<lparr>score := score g - 50\<rparr>))
      else if item = ''K'' then
        clear_cell position
          (log_event t (''Found key at '' @ coords position)
             (g\<lparr>inventory := (inventory g)\<lparr>keys := keys (inventory g) + 1\<rparr>\<rparr>))
      else if item = ''S'' then
        clear_cell position
          (log_event t (''Found shield at '' @ coords position)
             (g\<lparr>inventory := (inventory g)\<lparr>shields := shields (inventory g) + 1\<rparr>\<rparr>))
      else if item = ''M'' then
        clear_cell position
          (log_event t (''Found map at '' @ coords position)
             (g\<lparr>inventory := (inventory g)\<lparr>maps_inv := maps_inv (inventory g) + 1\<rparr>\<rparr>))
      else if item = ''E'' then
        (if keys (inventory g) \<ge> 1 then
           Inr ((log_event t ''Reached exit with key - Victory!'' (g\<lparr>score := score g + 200\<rparr>))
                  \<lparr>game_over := True\<rparr>)
         else Inr (log_event t ''Found exit but no key'' g))
      else Inr g)"

text \<open>
  \<open>move_player(direction)\<close>. The result is the returned boolean and the new state.
  \<open>t1\<close> is the clock reading of the log entry written before the position changes
  (the invalid move, or the item found), \<open>t2\<close> that of the entry \<open>Moved ...\<close>.
\<close>

definition new_position :: "string \<Rightarrow> game \<Rightarrow> (int \<times> int) option" where
  "new_position direction g =
     (let r = fst (player_pos g); c = snd (player_pos g) in
      if direction = ''up'' \<and> r > 0 then Some (r - 1, c)
      else if direction = ''down'' \<and> r < grid_size g - 1 then Some (r + 1, c)
      else if direction = ''left'' \<and> c > 0 then Some (r, c - 1)
      else if direction = ''right'' \<and> c < grid_size g - 1 then Some (r, c + 1)
      else None)"

definition move_player ::
    "datetime \<Rightarrow> datetime \<Rightarrow> string \<Rightarrow> game \<Rightarrow> error + (bool \<times> game)" where
  "move_player t1 t2 direction g =
     (case new_position direction g of
        None \<Rightarrow> Inr (False, log_event t1 (''Invalid move: '' @ direction) g)
      | Some new_pos \<Rightarrow>
          (let g1 = g\<lparr>moves := moves g + 1\<rparr> in
           bindE (grid_get (grid g1) (fst new_pos) (snd new_pos)) (\<lambda>item.
           bindE (handle_item_interaction t1 item new_pos g1) (\<lambda>g2.
             Inr (True,
               log_event t2 (''Moved '' @ direction @ '' to position '' @ coords new_pos)
                 (g2\<lparr>player_pos := new_pos\<rparr>))))))"

subsection \<open>Rendering\<close>

text \<open>\<open>range(n)\<close> and \<open>sep.join(xs)\<close>.\<close>

definition py_range :: "int \<Rightarrow> int list" where
  "py_range n = map int [0..<nat n]"

fun join :: "string \<Rightarrow> string list \<Rightarrow> string" where
  "join sep [] = []"
| "join sep [x] = x"
| "join sep (x # y # ys) = x @ sep @ join sep (y # ys)"

text \<open>Running a list of computations in order; the first exception ends the run.\<close>

fun sequenceE :: "(error + 'a) list \<Rightarrow> error + 'a list" where
  "sequenceE [] = Inr []"
| "sequenceE (m # ms) = bindE m (\<lambda>x. bindE (sequenceE ms) (\<lambda>xs. Inr (x # xs)))"

text \<open>
  \<open>display_grid(reveal_all)\<close>: the strings given to \<open>print\<close>, one per call, and the
  state after the call. The inner loop body is \<open>render_cell\<close>, the outer one
  \<open>render_row\<close>.
\<close>

definition render_cell :: "bool \<Rightarrow> game \<Rightarrow> int \<Rightarrow> int \<Rightarrow> error + string" where
  "render_cell reveal_all g i j =
     (if (i, j) = player_pos g then Inr ''P ''
      else if reveal_all then bindE (grid_get (grid g) i j) (\<lambda>cell. Inr (cell @ '' ''))
      else
        (let is_adjacent = (\<bar>i - fst (player_pos g)\<bar> \<le> 1 \<and> \<bar>j - snd (player_pos g)\<bar> \<le> 1) in
         if is_adjacent \<or> (case used_map (inventory g) of None \<Rightarrow> False | Some b \<Rightarrow> b)
         then bindE (grid_get (grid g) i j) (\<lambda>cell. Inr (cell @ '' ''))
         else Inr ''? ''))"

definition render_row :: "bool \<Rightarrow> game \<Rightarrow> int \<Rightarrow> error + string" where
  "render_row reveal_all g i =
     bindE (sequenceE (map (render_cell reveal_all g i) (py_range (grid_size g))))
       (\<lambda>cells. Inr (str_int i @ '' '' @ concat cells))"

definition display_grid :: "bool \<Rightarrow> game \<Rightarrow> (error + string list) \<times> game" where
  "display_grid reveal_all g =
     (bindE (sequenceE (map (render_row reveal_all g) (py_range (grid_size g))))
        (\<lambda>rows. Inr (
           [[CHR 0x0A] @ player_name g @ [CHR 0x27] @ ''s Treasure Hunt Adventure'',
            ''Score: '' @ str_int (score g) @ '' | Moves: '' @ str_int (moves g),
            ''Inventory: Keys: '' @ str_int (keys (inventory g))
              @ '' | Shields: '' @ str_int (shields (inventory g))
              @ '' | Maps: '' @ str_int (maps_inv (inventory g)),
            ''  '' @ join '' '' (map str_int (py_range (grid_size g)))]
           @ rows)),
      g)"

text \<open>\<open>use_map()\<close>; the five-second sleep has no effect on the state.\<close>

definition use_map :: "datetime \<Rightarrow> game \<Rightarrow> error + (bool \<times> game)" where
  "use_map t g =
     (if maps_inv (inventory g) > 0 then
        (let g1 = g\<lparr>inventory := (inventory g)\<lparr>maps_inv := maps_inv (inventory g) - 1\<rparr>\<rparr>;
             g2 = g1\<lparr>inventory := (inventory g1)\<lparr>used_map := Some True\<rparr>\<rparr>;
             g3 = log_event t ''Used map item'' g2
         in case display_grid True g3 of
              (Inl e, _) \<Rightarrow> Inl e
            | (Inr out, g4) \<Rightarrow> Inr (True, g4\<lparr>inventory := (inventory g4)\<lparr>used_map := Some False\<rparr>\<rparr>))
      else Inr (False, g))"

subsection \<open>Sequences of calls on one game object\<close>

datatype call = Move datetime datetime string | UseMap datetime

fun run_call :: "call \<Rightarrow> game \<Rightarrow> error + game" where
  "run_call (Move t1 t2 direction) g = bindE (move_player t1 t2 direction g) (\<lambda>r. Inr (snd r))"
| "run_call (UseMap t) g = bindE (use_map t g) (\<lambda>r. Inr (snd r))"

fun run_calls :: "call list \<Rightarrow> game \<Rightarrow> error + game" where
  "run_calls [] g = Inr g"
| "run_calls (c # cs) g = bindE (run_call c g) (run_calls cs)"

subsection \<open>Random placement and the constructor\<close>

text \<open>
  \<open>random.randint(a, b)\<close>. The generator is a list of numbers still to come; a draw takes
  the next one and reduces it to the range. An empty range raises \<open>ValueError\<close>. When
  the list is used up the result is \<open>None\<close>: the run did not finish on the numbers it
  was given. Every function that draws returns the numbers left over.
\<close>

definition randint :: "int \<Rightarrow> int \<Rightarrow> nat list \<Rightarrow> (error + int \<times> nat list) option" where
  "randint a b rs =
     (if b < a then Some (Inl ValueError)
      else case rs of
             [] \<Rightarrow> None
           | r # rs' \<Rightarrow> Some (Inr (a + int r mod (b - a + 1), rs')))"

definition bindO ::
    "(error + 'a) option \<Rightarrow> ('a \<Rightarrow> (error + 'b) option) \<Rightarrow> (error + 'b) option" where
  "bindO m f = (case m of None \<Rightarrow> None | Some (Inl e) \<Rightarrow> Some (Inl e) | Some (Inr x) \<Rightarrow> f x)"

text \<open>
  The loop of \<open>_place_random_items(item_symbol, count)\<close>, entered with \<open>placed\<close> items
  already down. It runs inside \<open>__init__\<close>, when only \<open>grid_size\<close>, \<open>player_pos\<close> and
  \<open>grid\<close> of the object matter, so these are its arguments.
\<close>

function place_loop ::
    "int \<Rightarrow> int \<times> int \<Rightarrow> string \<Rightarrow> int \<Rightarrow> int \<Rightarrow> nat list \<Rightarrow> grid
      \<Rightarrow> (error + grid \<times> nat list) option" where
  "place_loop n pos item_symbol count placed rs gr =
     (if placed < count then
        (case randint 0 (n - 1) rs of
           None \<Rightarrow> None
         | Some (Inl e) \<Rightarrow> Some (Inl e)
         | Some (Inr (x, rs1)) \<Rightarrow>
             (case randint 0 (n - 1) rs1 of
                None \<Rightarrow> None
              | Some (Inl e) \<Rightarrow> Some (Inl e)
              | Some (Inr (y, rs2)) \<Rightarrow>
                  (case grid_get gr y x of
                     Inl e \<Rightarrow> Some (Inl e)
                   | Inr cell \<Rightarrow>
                       if cell = '' '' \<and> (y, x) \<noteq> pos then
                         (case grid_set gr y x item_symbol of
                            Inl e \<Rightarrow> Some (Inl e)
                          | Inr gr' \<Rightarrow> place_loop n pos item_symbol count (placed + 1) rs2 gr')
                       else place_loop n pos item_symbol count placed rs2 gr)))
      else Some (Inr (gr, rs)))"
  by pat_completeness auto
termination
  by (relation "measure (\<lambda>(n, pos, item_symbol, count, placed, rs, gr). length rs)")
     (auto simp: randint_def split: if_splits list.splits)

definition place_random_items ::
    "int \<Rightarrow> int \<times> int \<Rightarrow> string \<Rightarrow> int \<Rightarrow> nat list \<Rightarrow> grid
      \<Rightarrow> (error + grid \<times> nat list) option" where
  "place_random_items n pos item_symbol count rs gr = place_loop n pos item_symbol count 0 rs gr"

definition place_items ::
    "int \<Rightarrow> int \<times> int \<Rightarrow> nat list \<Rightarrow> grid \<Rightarrow> (error + grid \<times> nat list) option" where
  "place_items n pos rs gr =
     bindO (place_random_items n pos ''T'' 3 rs gr) (\<lambda>(gr1, rs1).
     bindO (place_random_items n pos ''X'' 4 rs1 gr1) (\<lambda>(gr2, rs2).
     bindO (place_random_items n pos ''K'' 2 rs2 gr2) (\<lambda>(gr3, rs3).
     bindO (place_random_items n pos ''S'' 2 rs3 gr3) (\<lambda>(gr4, rs4).
     bindO (place_random_items n pos ''M'' 1 rs4 gr4) (\<lambda>(gr5, rs5).
     place_random_items n pos ''E'' 1 rs5 gr5)))))"

text \<open>
  \<open>__init__(player_name, grid_size)\<close>. \<open>t_start\<close> is the clock reading stored as
  \<open>start_time\<close>, \<open>t_log\<close> the one stamped on \<open>Game started\<close>.
\<close>

definition init ::
    "string \<Rightarrow> int \<Rightarrow> datetime \<Rightarrow> datetime \<Rightarrow> nat list \<Rightarrow> (error + game \<times> nat list) option" where
  "init name n t_start t_log rs =
     (let gr0 = replicate (nat n) (replicate (nat n) '' '') in
      bindO (randint 0 (n - 1) rs) (\<lambda>(r, rs1).
      bindO (randint 0 (n - 1) rs1) (\<lambda>(c, rs2).
      bindO (place_items n (r, c) rs2 gr0) (\<lambda>(gr, rs3).
        Some (Inr (log_event t_log ''Game started''
                \<lparr>player_name = name, grid_size = n, score = 0, moves = 0, game_over = False,
                 start_time = t_start, grid = gr, player_pos = (r, c),
                 inventory = \<lparr>keys = 0, shields = 0, maps_inv = 0, used_map = None\<rparr>,
                 game_log = []\<rparr>, rs3))))))"

subsection \<open>Elapsed time\<close>

text \<open>
  \<open>(datetime.now() - self.start_time).seconds\<close>: the difference of two datetimes is a
  \<open>timedelta\<close> normalised to days, seconds in \<open>[0, 86400)\<close> and microseconds, and
  \<open>.seconds\<close> is its middle part. Days are counted as \<open>toordinal\<close> does.
\<close>

definition is_leap :: "nat \<Rightarrow> bool" where
  "is_leap y = (y mod 4 = 0 \<and> (y mod 100 \<noteq> 0 \<or> y mod 400 = 0))"

definition days_before_year :: "nat \<Rightarrow> int" where
  "days_before_year year =
     (let y = int year - 1 in y * 365 + y div 4 - y div 100 + y div 400)"

definition days_before_month :: "nat \<Rightarrow> nat \<Rightarrow> int" where
  "days_before_month year month =
     (if month = 1 then 0 else if month = 2 then 31 else if month = 3 then 59
      else if month = 4 then 90 else if month = 5 then 120 else if month = 6 then 151
      else if month = 7 then 181 else if month = 8 then 212 else if month = 9 then 243
      else if month = 10 then 273 else if month = 11 then 304 else 334)
     + (if month > 2 \<and> is_leap year then 1 else 0)"

definition toordinal :: "datetime \<Rightarrow> int" where
  "toordinal t = days_before_year (dt_year t) + days_before_month (dt_year t) (dt_month t) + int (dt_day t)"

definition microseconds_between :: "datetime \<Rightarrow> datetime \<Rightarrow> int" where
  "microseconds_between t s =
     (((toordinal t - toordinal s) * 86400
        + (int (dt_second t) + int (dt_minute t) * 60 + int (dt_hour t) * 3600)
        - (int (dt_second s) + int (dt_minute s) * 60 + int (dt_hour s) * 3600)) * 1000000
      + (int (dt_microsecond t) - int (dt_microsecond s)))"

definition timedelta_seconds :: "datetime \<Rightarrow> datetime \<Rightarrow> int" where
  "timedelta_seconds t s = (microseconds_between t s div 1000000) mod 86400"

text \<open>\<open>get_status()\<close>, called when the clock reads \<open>now\<close>.\<close>

record status =
  st_player_name :: string
  st_score :: int
  st_moves :: int
  st_inventory :: inventory
  st_elapsed_time :: int
  st_game_over :: bool

definition get_status :: "datetime \<Rightarrow> game \<Rightarrow> status" where
  "get_status now g =
     \<lparr>st_player_name = player_name g, st_score = score g, st_moves = moves g,
      st_inventory = inventory g, st_elapsed_time = timedelta_seconds now (start_time g),
      st_game_over = game_over g\<rparr>"

subsection \<open>JSON documents and files\<close>

text \<open>
  What \<open>json.load\<close> returns and \<open>json.dump\<close> accepts: \<open>None\<close>, booleans, integers,
  strings, lists, and dictionaries with string keys (the items in insertion order).
  The program writes no number with a fraction, so there is no constructor for one.
\<close>

datatype json =
    JNull | JBool bool | JInt int | JStr string | JList "json list" | JObj "(string \<times> json) list"

text \<open>
  A file holds either text that \<open>json.load\<close> parses to a document, or text it rejects
  with \<open>JSONDecodeError\<close>. The file system maps the names of the files that exist to
  their contents. Writing a document with \<open>json.dump\<close> and parsing the text back gives
  the same document: that is a property of the \<open>json\<close> module, built into this model
  by storing the document itself. Opening a file for writing is taken to succeed.
\<close>

datatype contents = Unparsable | Document json

type_synonym fs = "string \<rightharpoonup> contents"

definition json_load :: "fs \<Rightarrow> string \<Rightarrow> error + json" where
  "json_load files filename =
     (case files filename of
        None \<Rightarrow> Inl FileNotFoundError
      | Some Unparsable \<Rightarrow> Inl JSONDecodeError
      | Some (Document j) \<Rightarrow> Inr j)"

definition json_dump :: "json \<Rightarrow> string \<Rightarrow> fs \<Rightarrow> fs" where
  "json_dump j filename files = files(filename \<mapsto> Document j)"

text \<open>\<open>d[key]\<close> on a loaded document with a string key.\<close>

definition subscript :: "json \<Rightarrow> string \<Rightarrow> error + json" where
  "subscript d key =
     (case d of
        JObj items \<Rightarrow> (case map_of items key of None \<Rightarrow> Inl KeyError | Some v \<Rightarrow> Inr v)
      | _ \<Rightarrow> Inl TypeError)"

text \<open>
  The attributes of the game record are typed; Python assigns whatever the document
  holds. A value of another type than the record's has no image in the record, and the
  model then stops with \<open>Untyped\<close>: it says nothing about what the program does with
  such a file.
\<close>

definition as_int :: "json \<Rightarrow> error + int" where
  "as_int j = (case j of JInt i \<Rightarrow> Inr i | _ \<Rightarrow> Inl Untyped)"

definition as_str :: "json \<Rightarrow> error + string" where
  "as_str j = (case j of JStr s \<Rightarrow> Inr s | _ \<Rightarrow> Inl Untyped)"

definition as_list :: "(json \<Rightarrow> error + 'a) \<Rightarrow> json \<Rightarrow> error + 'a list" where
  "as_list f j = (case j of JList js \<Rightarrow> sequenceE (map f js) | _ \<Rightarrow> Inl Untyped)"

definition as_pos :: "json \<Rightarrow> error + int \<times> int" where
  "as_pos j = (case j of JList [JInt r, JInt c] \<Rightarrow> Inr (r, c) | _ \<Rightarrow> Inl Untyped)"

definition as_inventory :: "json \<Rightarrow> error + inventory" where
  "as_inventory j =
     (case j of
        JObj items \<Rightarrow>
          (case (map_of items ''keys'', map_of items ''shields'', map_of items ''maps'') of
             (Some (JInt k), Some (JInt s), Some (JInt m)) \<Rightarrow>
               (if set (map fst items) \<subseteq> {''keys'', ''shields'', ''maps'', ''used_map''} then
                  (case map_of items ''used_map'' of
                     None \<Rightarrow> Inr \<lparr>keys = k, shields = s, maps_inv = m, used_map = None\<rparr>
                   | Some (JBool b) \<Rightarrow> Inr \<lparr>keys = k, shields = s, maps_inv = m, used_map = Some b\<rparr>
                   | Some _ \<Rightarrow> Inl Untyped)
                else Inl Untyped)
           | _ \<Rightarrow> Inl Untyped)
      | _ \<Rightarrow> Inl Untyped)"

text \<open>The documents \<open>json.dump\<close> makes of the attributes.\<close>

definition inventory_json :: "inventory \<Rightarrow> json" where
  "inventory_json invt =
     JObj ([(''keys'', JInt (keys invt)), (''shields'', JInt (shields invt)),
            (''maps'', JInt (maps_inv invt))]
           @ (case used_map invt of None \<Rightarrow> [] | Some b \<Rightarrow> [(''used_map'', JBool b)]))"

definition grid_json :: "grid \<Rightarrow> json" where
  "grid_json gr = JList (map (\<lambda>row. JList (map JStr row)) gr)"

definition pos_json :: "int \<times> int \<Rightarrow> json" where
  "pos_json p = JList [JInt (fst p), JInt (snd p)]"

subsection \<open>Saving and loading a game\<close>

text \<open>\<open>save_game(filename)\<close>, called when the clock reads \<open>now\<close>; it returns \<open>True\<close>.\<close>

definition game_data :: "datetime \<Rightarrow> game \<Rightarrow> json" where
  "game_data now g =
     JObj [(''player_name'', JStr (player_name g)),
           (''grid_size'', JInt (grid_size g)),
           (''score'', JInt (score g)),
           (''moves'', JInt (moves g)),
           (''player_pos'', pos_json (player_pos g)),
           (''grid'', grid_json (grid g)),
           (''inventory'', inventory_json (inventory g)),
           (''game_log'', JList (map JStr (game_log g))),
           (''saved_at'', JStr (strftime_full now))]"

definition save_game :: "datetime \<Rightarrow> string \<Rightarrow> game \<Rightarrow> fs \<Rightarrow> bool \<times> fs" where
  "save_game now filename g files = (True, json_dump (game_data now g) filename files)"

text \<open>
  The body of the \<open>try\<close> block of \<open>load_game(filename)\<close>, statement by statement.
  The three clock readings are those of \<open>__init__\<close> (\<open>t_start\<close>, \<open>t_log\<close>) and of the
  entry \<open>Game loaded\<close> (\<open>t_loaded\<close>); \<open>rs\<close> are the numbers \<open>__init__\<close> draws from.
\<close>

definition liftE :: "error + 'a \<Rightarrow> (error + 'a) option" where
  "liftE m = Some m"

definition load_game_body ::
    "datetime \<Rightarrow> datetime \<Rightarrow> datetime \<Rightarrow> nat list \<Rightarrow> string \<Rightarrow> fs \<Rightarrow> (error + game) option" where
  "load_game_body t_start t_log t_loaded rs filename files =
     bindO (liftE (json_load files filename)) (\<lambda>data.
     bindO (liftE (subscript data ''player_name'')) (\<lambda>name_j.
     bindO (liftE (subscript data ''grid_size'')) (\<lambda>size_j.
     bindO (liftE (as_str name_j)) (\<lambda>name.
     bindO (liftE (as_int size_j)) (\<lambda>n.
     bindO (init name n t_start t_log rs) (\<lambda>(game, rs').
     bindO (liftE (subscript data ''score'')) (\<lambda>score_j.
     bindO (liftE (subscript data ''moves'')) (\<lambda>moves_j.
     bindO (liftE (subscript data ''player_pos'')) (\<lambda>pos_j.
     bindO (liftE (subscript data ''grid'')) (\<lambda>grid_j.
     bindO (liftE (subscript data ''inventory'')) (\<lambda>inventory_j.
     bindO (liftE (subscript data ''game_log'')) (\<lambda>log_j.
     bindO (liftE (as_int score_j)) (\<lambda>sc.
     bindO (liftE (as_int moves_j)) (\<lambda>mv.
     bindO (liftE (as_pos pos_j)) (\<lambda>pos.
     bindO (liftE (as_list (as_list as_str) grid_j)) (\<lambda>gr.
     bindO (liftE (as_inventory inventory_j)) (\<lambda>invt.
     bindO (liftE (as_list as_str log_j)) (\<lambda>lg.
       Some (Inr (log_event t_loaded (''Game loaded from '' @ filename)
         (game\<lparr>score := sc, moves := mv, player_pos := pos, grid := gr,
                inventory := invt, game_log := lg\<rparr>)))))))))))))))))))))"

text \<open>
  \<open>load_game\<close>: the \<open>except\<close> clause turns \<open>FileNotFoundError\<close> and
  \<open>JSONDecodeError\<close> into the return value \<open>None\<close>; any other exception leaves the
  method. The result is \<open>None\<close> when \<open>__init__\<close> ran out of random numbers,
  \<open>Some (Inl e)\<close> when the call raised \<open>e\<close>, \<open>Some (Inr None)\<close> when it returned
  \<open>None\<close> and \<open>Some (Inr (Some g))\<close> when it returned the game \<open>g\<close>.
\<close>

definition load_game ::
    "datetime \<Rightarrow> datetime \<Rightarrow> datetime \<Rightarrow> nat list \<Rightarrow> string \<Rightarrow> fs
      \<Rightarrow> (error + game option) option" where
  "load_game t_start t_log t_loaded rs filename files =
     (case load_game_body t_start t_log t_loaded rs filename files of
        None \<Rightarrow> None
      | Some (Inl e) \<Rightarrow>
          if e = FileNotFoundError \<or> e = JSONDecodeError then Some (Inr None) else Some (Inl e)
      | Some (Inr g) \<Rightarrow> Some (Inr (Some g)))"

subsection \<open>High scores\<close>

record entry =
  hs_player :: string
  hs_score :: int
  hs_date :: string

definition entry_json :: "entry \<Rightarrow> json" where
  "entry_json e =
     JObj [(''player'', JStr (hs_player e)), (''score'', JInt (hs_score e)),
           (''date'', JStr (hs_date e))]"

definition as_entry :: "json \<Rightarrow> error + entry" where
  "as_entry j =
     (case j of
        JObj items \<Rightarrow>
          (case (map_of items ''player'', map_of items ''score'', map_of items ''date'') of
             (Some (JStr p), Some (JInt s), Some (JStr d)) \<Rightarrow>
               (if set (map fst items) \<subseteq> {''player'', ''score'', ''date''}
                then Inr \<lparr>hs_player = p, hs_score = s, hs_date = d\<rparr> else Inl Untyped)
           | _ \<Rightarrow> Inl Untyped)
      | _ \<Rightarrow> Inl Untyped)"

text \<open>
  The first statement of \<open>check_high_scores\<close>: the list in the file, or the empty list
  when the file is missing or does not parse. A document that is not a list has no
  \<open>append\<close> (\<open>AttributeError\<close> at the next statement); a list whose items are not
  entries of the record type is outside the typed model.
\<close>

definition read_high_scores :: "fs \<Rightarrow> string \<Rightarrow> error + entry list" where
  "read_high_scores files filename =
     (case json_load files filename of
        Inl e \<Rightarrow> if e = FileNotFoundError \<or> e = JSONDecodeError then Inr [] else Inl e
      | Inr (JList js) \<Rightarrow> sequenceE (map as_entry js)
      | Inr _ \<Rightarrow> Inl AttributeError)"

text \<open>
  \<open>high_scores.sort(key=lambda x: x["score"], reverse=True)\<close>: Python's sort is stable,
  also with \<open>reverse=True\<close>, so entries with equal scores keep their order.
\<close>

definition sort_scores :: "entry list \<Rightarrow> entry list" where
  "sort_scores es = sort_key (\<lambda>e. - hs_score e) es"

text \<open>\<open>check_high_scores(player_name, score, filename)\<close>, called when the clock reads \<open>now\<close>.\<close>

definition check_high_scores ::
    "string \<Rightarrow> int \<Rightarrow> datetime \<Rightarrow> string \<Rightarrow> fs \<Rightarrow> error + (bool \<times> fs)" where
  "check_high_scores name sc now filename files =
     bindE (read_high_scores files filename) (\<lambda>high_scores.
       (let appended = high_scores @ [\<lparr>hs_player = name, hs_score = sc, hs_date = strftime_full now\<rparr>];
            top = take 5 (sort_scores appended)
        in Inr (list_ex (\<lambda>score_entry. hs_player score_entry = name \<and> hs_score score_entry = sc) top,
                json_dump (JList (map entry_json top)) filename files)))"


subsection \<open>Notions used to state the properties\<close>

text \<open>The square a direction points at, and whether a square lies on the grid.\<close>

definition target :: "string \<Rightarrow> int \<times> int \<Rightarrow> (int \<times> int) option" where
  "target direction p =
     (if direction = ''up'' then Some (fst p - 1, snd p)
      else if direction = ''down'' then Some (fst p + 1, snd p)
      else if direction = ''left'' then Some (fst p, snd p - 1)
      else if direction = ''right'' then Some (fst p, snd p + 1)
      else None)"

definition in_bounds :: "game \<Rightarrow> int \<times> int \<Rightarrow> bool" where
  "in_bounds g p = (0 \<le> fst p \<and> fst p < grid_size g \<and> 0 \<le> snd p \<and> snd p < grid_size g)"

definition cell_at :: "game \<Rightarrow> int \<times> int \<Rightarrow> error + string" where
  "cell_at g p = grid_get (grid g) (fst p) (snd p)"

text \<open>A grid of \<open>n\<close> rows of \<open>n\<close> cells, and its empty cells as (row, column) pairs.\<close>

definition square :: "int \<Rightarrow> grid \<Rightarrow> bool" where
  "square n gr = (length gr = nat n \<and> list_all (\<lambda>row. length row = nat n) gr)"

definition empties :: "int \<Rightarrow> grid \<Rightarrow> (nat \<times> nat) set" where
  "empties n gr = {(y, x). y < nat n \<and> x < nat n \<and> gr ! y ! x = '' ''}"

text \<open>The list in the high-score file after a call of \<open>check_high_scores\<close>.\<close>

definition persisted :: "string \<Rightarrow> error + (bool \<times> fs) \<Rightarrow> error + entry list" where
  "persisted filename result = bindE result (\<lambda>r. read_high_scores (snd r) filename)"


subsection \<open>Concrete states for the runs below\<close>

text \<open>
  Two clock readings and a board of side five, which \<open>__init__\<close> builds from the
  numbers \<open>demo_board_draws\<close>; the same board with a key in hand, and with a shield
  in hand next to two traps.
\<close>

definition noon :: datetime where
  "noon = \<lparr>dt_year = 2024, dt_month = 5, dt_day = 17, dt_hour = 12, dt_minute = 0,
           dt_second = 0, dt_microsecond = 0\<rparr>"

definition one_o_clock :: datetime where
  "one_o_clock = noon\<lparr>dt_hour := 13\<rparr>"

definition demo_game :: game where
  "demo_game =
     \<lparr>player_name = ''ann'', grid_size = 5, score = 0, moves = 0, game_over = False,
      start_time = noon,
      grid = [['' '', ''E'', '' '', ''K'', '' ''],
              [''T'', ''X'', ''X'', '' '', '' ''],
              ['' '', ''S'', '' '', ''M'', '' ''],
              [''T'', '' '', ''X'', ''K'', ''S''],
              [''X'', '' '', ''T'', '' '', '' '']],
      player_pos = (0, 0),
      inventory = \<lparr>keys = 0, shields = 0, maps_inv = 0, used_map = None\<rparr>,
      game_log = [''[12:00:00] Game started'']\<rparr>"

definition demo_board_draws :: "nat list" where
  "demo_board_draws =
     [0, 0,
      0, 1, 0, 3, 2, 4,
      1, 1, 2, 1, 2, 3, 0, 4,
      3, 0, 3, 3,
      1, 2, 4, 3,
      3, 2,
      1, 0]"

definition exit_state :: game where
  "exit_state = demo_game\<lparr>inventory := (inventory demo_game)\<lparr>keys := 1\<rparr>\<rparr>"

definition trap_state :: game where
  "trap_state =
     demo_game\<lparr>player_pos := (1, 0), inventory := (inventory demo_game)\<lparr>shields := 1\<rparr>\<rparr>"

text \<open>Numbers on which \<open>__init__\<close> completes for every grid of side four or more.\<close>

definition demo_draws :: "nat list" where
  "demo_draws = [0, 0, 1, 0, 2, 0, 3, 0, 0, 1, 1, 1, 2, 1, 3, 1, 0, 2, 1, 2, 2, 2, 3, 2, 0, 3, 1, 3]"

text \<open>
  High-score files: five equal entries of one player, and seven entries in no order.
\<close>

definition old_entry :: entry where
  "old_entry = \<lparr>hs_player = ''bob'', hs_score = 100, hs_date = ''2024-01-01 09:00:00''\<rparr>"

definition full_board :: fs where
  "full_board =
     [''high_scores.json'' \<mapsto>
        Document (JList (map entry_json [old_entry, old_entry, old_entry, old_entry, old_entry]))]"

definition long_board :: fs where
  "long_board =
     [''high_scores.json'' \<mapsto>
        Document (JList (map entry_json
          [\<lparr>hs_player = ''al'', hs_score = 10, hs_date = ''d''\<rparr>,
           \<lparr>hs_player = ''bo'', hs_score = 70, hs_date = ''d''\<rparr>,
           \<lparr>hs_player = ''cy'', hs_score = 30, hs_date = ''d''\<rparr>,
           \<lparr>hs_player = ''di'', hs_score = 90, hs_date = ''d''\<rparr>,
           \<lparr>hs_player = ''ed'', hs_score = 20, hs_date = ''d''\<rparr>,
           \<lparr>hs_player = ''fy'', hs_score = 80, hs_date = ''d''\<rparr>,
           \<lparr>hs_player = ''gi'', hs_score = 60, hs_date = ''d''\<rparr>]))]"

section \<open>Properties\<close>

subsection \<open>Reading and writing cells\<close>

lemma py_index_update [simp]: "py_index (xs[k := v]) i = py_index xs i"
  by (simp add: py_index_def)

lemma py_index_less: "py_index xs i = Inr k \<Longrightarrow> k < length xs"
  by (auto simp: py_index_def Let_def split: if_splits)

lemma grid_get_Inr:
  "grid_get gr r c = Inr x \<longleftrightarrow>
     (\<exists>k j. py_index gr r = Inr k \<and> py_index (gr ! k) c = Inr j \<and> x = gr ! k ! j)"
  by (auto simp: grid_get_def bindE_def py_get_def split: sum.splits)

lemma grid_set_Inr:
  "grid_set gr r c v = Inr gr' \<longleftrightarrow>
     (\<exists>k j. py_index gr r = Inr k \<and> py_index (gr ! k) c = Inr j \<and> gr' = gr[k := (gr ! k)[j := v]])"
  by (auto simp: grid_set_def bindE_def py_get_def py_set_def split: sum.splits)

lemma grid_set_after_get:
  assumes "grid_get gr r c = Inr x"
  shows "\<exists>gr'. grid_set gr r c v = Inr gr' \<and> grid_get gr' r c = Inr v"
proof -
  from assms obtain k j where kj: "py_index gr r = Inr k" "py_index (gr ! k) c = Inr j"
    by (auto simp: grid_get_Inr)
  then have "k < length gr" "j < length (gr ! k)"
    by (auto dest: py_index_less)
  with kj show ?thesis
    by (simp add: grid_set_Inr grid_get_Inr)
qed

lemma grid_set_keeps_empty:
  assumes "grid_set gr r c '' '' = Inr gr'" and "grid_get gr r' c' = Inr '' ''"
  shows "grid_get gr' r' c' = Inr '' ''"
proof -
  from assms(1) obtain k j where kj: "py_index gr r = Inr k" "py_index (gr ! k) c = Inr j"
      and gr': "gr' = gr[k := (gr ! k)[j := '' '']]"
    by (auto simp: grid_set_Inr)
  from assms(2) obtain k' j' where kj': "py_index gr r' = Inr k'" "py_index (gr ! k') c' = Inr j'"
      and e: "gr ! k' ! j' = '' ''"
    by (auto simp: grid_get_Inr)
  have lt: "k < length gr" "j < length (gr ! k)" "k' < length gr" "j' < length (gr ! k')"
    using kj kj' by (auto dest: py_index_less)
  show ?thesis
  proof (cases "k' = k")
    case True
    with kj kj' lt e gr' show ?thesis
      by (auto simp: grid_get_Inr nth_list_update)
  next
    case False
    with kj kj' lt e gr' show ?thesis
      by (auto simp: grid_get_Inr nth_list_update)
  qed
qed

lemma clear_cell_keeps_empty:
  assumes "clear_cell p g = Inr g'" and "cell_at g q = Inr '' ''"
  shows "cell_at g' q = Inr '' ''"
  using assms
  by (auto simp: clear_cell_def cell_at_def bindE_def split: sum.splits
      dest: grid_set_keeps_empty)

lemma cell_at_log_event [simp]: "cell_at (log_event t e g) q = cell_at g q"
  by (simp add: cell_at_def log_event_def)

lemma cell_at_score_update [simp]: "cell_at (g\<lparr>score := s\<rparr>) q = cell_at g q"
  by (simp add: cell_at_def)

lemma cell_at_inventory_update [simp]: "cell_at (g\<lparr>inventory := s\<rparr>) q = cell_at g q"
  by (simp add: cell_at_def)

lemma cell_at_moves_update [simp]: "cell_at (g\<lparr>moves := s\<rparr>) q = cell_at g q"
  by (simp add: cell_at_def)

lemma cell_at_pos_update [simp]: "cell_at (g\<lparr>player_pos := s\<rparr>) q = cell_at g q"
  by (simp add: cell_at_def)

lemma cell_at_game_over_update [simp]: "cell_at (g\<lparr>game_over := s\<rparr>) q = cell_at g q"
  by (simp add: cell_at_def)

lemma handle_item_keeps_empty:
  assumes "handle_item_interaction t item p g = Inr g'" and "cell_at g q = Inr '' ''"
  shows "cell_at g' q = Inr '' ''"
  using assms
  by (auto simp: handle_item_interaction_def split: if_splits
        intro: clear_cell_keeps_empty[where q = q and g' = g'] )

lemma move_player_keeps_empty:
  assumes "move_player t1 t2 d g = Inr (b, g')" and "cell_at g q = Inr '' ''"
  shows "cell_at g' q = Inr '' ''"
  using assms
  by (auto simp: move_player_def bindE_def Let_def split: option.splits sum.splits
      dest!: handle_item_keeps_empty[where q = q])

lemma use_map_grid:
  assumes "use_map t g = Inr (b, g')"
  shows "grid g' = grid g"
  using assms
  by (auto simp: use_map_def Let_def display_grid_def log_event_def split: if_splits prod.splits sum.splits)

lemma run_call_keeps_empty:
  assumes "run_call c g = Inr g'" and "cell_at g q = Inr '' ''"
  shows "cell_at g' q = Inr '' ''"
proof (cases c)
  case (Move t1 t2 d)
  with assms show ?thesis
    by (auto simp: bindE_def split: sum.splits dest: move_player_keeps_empty)
next
  case (UseMap t)
  with assms show ?thesis
    by (auto simp: bindE_def cell_at_def split: sum.splits dest: use_map_grid)
qed

lemma run_calls_keeps_empty:
  assumes "run_calls cs g = Inr g'" and "cell_at g q = Inr '' ''"
  shows "cell_at g' q = Inr '' ''"
  using assms
proof (induction cs arbitrary: g)
  case Nil
  then show ?case by simp
next
  case (Cons c cs)
  then show ?case
    by (auto simp: bindE_def split: sum.splits dest: run_call_keeps_empty)
qed

subsection \<open>One move\<close>

lemma move_player_valid:
  assumes "new_position d g = Some p"
  shows "move_player t1 t2 d g =
     bindE (cell_at g p) (\<lambda>item.
       bindE (handle_item_interaction t1 item p (g\<lparr>moves := moves g + 1\<rparr>)) (\<lambda>g2.
         Inr (True, log_event t2 (''Moved '' @ d @ '' to position '' @ coords p)
                      (g2\<lparr>player_pos := p\<rparr>))))"
  using assms by (simp add: move_player_def Let_def cell_at_def)

lemma clear_cell_after_get:
  assumes "cell_at g p = Inr x"
  shows "\<exists>gr. clear_cell p g = Inr (g\<lparr>grid := gr\<rparr>) \<and> grid_get gr (fst p) (snd p) = Inr '' ''"
proof -
  from assms obtain gr where "grid_set (grid g) (fst p) (snd p) '' '' = Inr gr"
      and "grid_get gr (fst p) (snd p) = Inr '' ''"
    using grid_set_after_get [of "grid g" "fst p" "snd p" x "'' ''"] by (auto simp: cell_at_def)
  then show ?thesis
    by (intro exI [of _ gr]) (simp add: clear_cell_def bindE_def)
qed

lemma move_onto_trap:
  assumes "new_position d g = Some p" and "cell_at g p = Inr ''X''"
  shows "\<exists>g'. move_player t1 t2 d g = Inr (True, g') \<and> cell_at g' p = Inr '' ''
           \<and> player_pos g' = p \<and> moves g' = moves g + 1 \<and> grid_size g' = grid_size g
           \<and> (if shields (inventory g) > 0
               then inventory g' = (inventory g)\<lparr>shields := shields (inventory g) - 1\<rparr>
                    \<and> score g' = score g
               else inventory g' = inventory g \<and> score g' = score g - 50)"
proof (cases "shields (inventory g) > 0")
  case True
  let ?g1 = "log_event t1 (''Shield used against trap at '' @ coords p)
               (g\<lparr>moves := moves g + 1,
                   inventory := (inventory g)\<lparr>shields := shields (inventory g) - 1\<rparr>\<rparr>)"
  have "cell_at ?g1 p = Inr ''X''"
    using assms(2) by simp
  from clear_cell_after_get [OF this] obtain gr
    where "clear_cell p ?g1 = Inr (?g1\<lparr>grid := gr\<rparr>)" "grid_get gr (fst p) (snd p) = Inr '' ''"
    by blast
  with True assms show ?thesis
    by (simp add: move_player_valid bindE_def handle_item_interaction_def log_event_def cell_at_def)
next
  case False
  let ?g1 = "log_event t1 (''Hit by trap at '' @ coords p)
               (g\<lparr>moves := moves g + 1, score := score g - 50\<rparr>)"
  have "cell_at ?g1 p = Inr ''X''"
    using assms(2) by simp
  from clear_cell_after_get [OF this] obtain gr
    where "clear_cell p ?g1 = Inr (?g1\<lparr>grid := gr\<rparr>)" "grid_get gr (fst p) (snd p) = Inr '' ''"
    by blast
  with False assms show ?thesis
    by (simp add: move_player_valid bindE_def handle_item_interaction_def log_event_def cell_at_def)
qed


lemma move_onto_empty:
  assumes "new_position d g = Some p" and "cell_at g p = Inr '' ''"
  shows "move_player t1 t2 d g =
           Inr (True, log_event t2 (''Moved '' @ d @ '' to position '' @ coords p)
                        (g\<lparr>moves := moves g + 1, player_pos := p\<rparr>))"
  using assms by (simp add: move_player_valid bindE_def handle_item_interaction_def)

subsection \<open>Loading\<close>

lemma bindO_Inr_iff:
  "bindO m f = Some (Inr y) \<longleftrightarrow> (\<exists>x. m = Some (Inr x) \<and> f x = Some (Inr y))"
  by (auto simp: bindO_def split: option.splits sum.splits)

lemma liftE_Inr_iff [simp]: "liftE m = Some (Inr x) \<longleftrightarrow> m = Inr x"
  by (simp add: liftE_def)

lemma init_fields:
  assumes "init name n t_start t_log rs = Some (Inr (g, rs'))"
  shows "player_name g = name \<and> grid_size g = n \<and> \<not> game_over g \<and> start_time g = t_start"
  using assms
  by (auto simp: init_def Let_def bindO_Inr_iff log_event_def)

lemma bindO_liftE_Inl [simp]: "bindO (liftE (Inl e)) f = Some (Inl e)"
  by (simp add: bindO_def liftE_def)

lemma bindO_liftE_Inr [simp]: "bindO (liftE (Inr x)) f = f x"
  by (simp add: bindO_def liftE_def)

lemma load_game_body_fields:
  assumes "load_game_body t_start t_log t_loaded rs filename files = Some (Inr g)"
  shows "\<not> game_over g \<and> start_time g = t_start"
  using assms
  by (auto simp: load_game_body_def bindO_Inr_iff log_event_def dest!: init_fields)

lemma load_game_Some_iff:
  "load_game t_start t_log t_loaded rs filename files = Some (Inr (Some g)) \<longleftrightarrow>
     load_game_body t_start t_log t_loaded rs filename files = Some (Inr g)"
  by (auto simp: load_game_def split: option.splits sum.splits if_splits)


subsection \<open>Documents read back\<close>

lemma sequenceE_Inr [simp]: "sequenceE (map Inr xs) = Inr xs"
  by (induction xs) (simp_all add: bindE_def)

lemma as_str_JStr [simp]: "as_str (JStr s) = Inr s"
  by (simp add: as_str_def)

lemma as_list_strs [simp]: "as_list as_str (JList (map JStr xs)) = Inr xs"
  by (simp add: as_list_def comp_def)

lemma as_list_grid_json [simp]: "as_list (as_list as_str) (grid_json gr) = Inr gr"
  by (simp add: as_list_def [of "as_list as_str"] grid_json_def comp_def)

lemma as_pos_json [simp]: "as_pos (pos_json p) = Inr p"
  by (simp add: as_pos_def pos_json_def)

lemma as_inventory_json [simp]: "as_inventory (inventory_json invt) = Inr invt"
  by (cases "used_map invt") (simp_all add: as_inventory_def inventory_json_def)

lemma subscript_game_data [simp]:
  "subscript (game_data now g) ''player_name'' = Inr (JStr (player_name g))"
  "subscript (game_data now g) ''grid_size'' = Inr (JInt (grid_size g))"
  "subscript (game_data now g) ''score'' = Inr (JInt (score g))"
  "subscript (game_data now g) ''moves'' = Inr (JInt (moves g))"
  "subscript (game_data now g) ''player_pos'' = Inr (pos_json (player_pos g))"
  "subscript (game_data now g) ''grid'' = Inr (grid_json (grid g))"
  "subscript (game_data now g) ''inventory'' = Inr (inventory_json (inventory g))"
  "subscript (game_data now g) ''game_log'' = Inr (JList (map JStr (game_log g)))"
  by (simp_all add: subscript_def game_data_def)

lemma load_saved_body:
  "load_game_body t_start t_log t_loaded rs filename (snd (save_game now filename g files)) =
     bindO (init (player_name g) (grid_size g) t_start t_log rs) (\<lambda>(game, rs').
       Some (Inr (log_event t_loaded (''Game loaded from '' @ filename)
         (game\<lparr>score := score g, moves := moves g, player_pos := player_pos g, grid := grid g,
                inventory := inventory g, game_log := game_log g\<rparr>))))"
  by (simp add: load_game_body_def save_game_def json_dump_def json_load_def as_str_def as_int_def)

subsection \<open>The constructor\<close>

lemma py_index_in_range:
  assumes "0 \<le> i" and "i < int (length xs)"
  shows "py_index xs i = Inr (nat i)"
  using assms by (simp add: py_index_def)

lemma grid_get_in_range:
  assumes "0 \<le> y" "y < int (length gr)" "0 \<le> x" "x < int (length (gr ! nat y))"
  shows "grid_get gr y x = Inr (gr ! nat y ! nat x)"
  using assms by (simp add: grid_get_def py_get_def py_index_in_range bindE_def)

lemma grid_set_in_range:
  assumes "0 \<le> y" "y < int (length gr)" "0 \<le> x" "x < int (length (gr ! nat y))"
  shows "grid_set gr y x v = Inr (gr[nat y := (gr ! nat y)[nat x := v]])"
  using assms by (simp add: grid_set_def py_get_def py_set_def py_index_in_range bindE_def)

lemma square_get:
  assumes "square n gr" "0 \<le> y" "y < n" "0 \<le> x" "x < n"
  shows "grid_get gr y x = Inr (gr ! nat y ! nat x)"
  using assms by (auto simp: square_def list_all_length intro!: grid_get_in_range)

lemma square_set:
  assumes "square n gr" "0 \<le> y" "y < n" "0 \<le> x" "x < n"
  shows "\<exists>gr'. grid_set gr y x v = Inr gr' \<and> square n gr'"
proof -
  from assms have "grid_set gr y x v = Inr (gr[nat y := (gr ! nat y)[nat x := v]])"
    by (auto simp: square_def list_all_length intro!: grid_set_in_range)
  moreover from assms have "square n (gr[nat y := (gr ! nat y)[nat x := v]])"
    by (auto simp: square_def list_all_length nth_list_update)
  ultimately show ?thesis
    by blast
qed

declare place_loop.simps [simp del]

lemma place_loop_square:
  assumes "square n gr"
    and "place_loop n pos item_symbol count placed rs gr = Some r"
    and "1 \<le> n"
  shows "\<exists>gr' rs'. r = Inr (gr', rs') \<and> square n gr'"
  using assms
proof (induction n pos item_symbol count placed rs gr rule: place_loop.induct)
  case (1 n pos item_symbol count placed rs gr)
  note n1 = "1.prems"(3)
  note step = "1.prems"(2) [unfolded place_loop.simps [of n pos item_symbol count placed rs gr]]
  show ?case
  proof (cases "placed < count")
    case False
    with step "1.prems"(1) show ?thesis
      by auto
  next
    case True
    consider "rs = []" | a where "rs = [a]" | a b rs2 where "rs = a # b # rs2"
      by (cases rs rule: remdups_adj.cases) auto
    then show ?thesis
    proof cases
      case 1
      with True step n1 show ?thesis
        by (simp add: randint_def)
    next
      case 2
      with True step n1 show ?thesis
        by (simp add: randint_def)
    next
      case 3
      define x where "x = int a mod n"
      define y where "y = int b mod n"
      have rx: "randint 0 (n - 1) rs = Some (Inr (x, b # rs2))"
        and ry: "randint 0 (n - 1) (b # rs2) = Some (Inr (y, rs2))"
        using 3 n1 by (simp_all add: randint_def x_def y_def)
      have range: "0 \<le> x" "x < n" "0 \<le> y" "y < n"
        using n1 by (simp_all add: x_def y_def)
      have get: "grid_get gr y x = Inr (gr ! nat y ! nat x)"
        using square_get [OF "1.prems"(1) range(3,4,1,2)] .
      show ?thesis
      proof (cases "gr ! nat y ! nat x = '' '' \<and> (y, x) \<noteq> pos")
        case hit: True
        from square_set [OF "1.prems"(1) range(3,4,1,2), of item_symbol] obtain gr'
          where set: "grid_set gr y x item_symbol = Inr gr'" and sq: "square n gr'"
          by blast
        from step True rx ry get hit set
        have "place_loop n pos item_symbol count (placed + 1) rs2 gr' = Some r"
          by simp
        from "1.IH"(1) [OF True rx refl refl ry refl refl get hit set sq this n1] show ?thesis .
      next
        case miss: False
        from step True rx ry get miss
        have "place_loop n pos item_symbol count placed rs2 gr = Some r"
          by auto
        from "1.IH"(2) [OF True rx refl refl ry refl refl get miss "1.prems"(1) this n1] show ?thesis .
      qed
    qed
  qed
qed


lemma place_random_items_square:
  assumes "square n gr" and "place_random_items n pos item_symbol count rs gr = Some r" and "1 \<le> n"
  shows "\<exists>gr' rs'. r = Inr (gr', rs') \<and> square n gr'"
  using assms unfolding place_random_items_def by (rule place_loop_square)

lemma bindO_Some_iff:
  "bindO m f = Some r \<longleftrightarrow>
     (\<exists>e. m = Some (Inl e) \<and> r = Inl e) \<or> (\<exists>x. m = Some (Inr x) \<and> f x = Some r)"
  by (auto simp: bindO_def split: option.splits sum.splits)

lemma bindO_placeE:
  assumes "bindO (place_random_items n pos item_symbol count rs gr) f = Some r"
    and "square n gr" and "1 \<le> n"
  obtains gr' rs' where "square n gr'" and "f (gr', rs') = Some r"
proof -
  from assms(1) consider e where "place_random_items n pos item_symbol count rs gr = Some (Inl e)"
    | x where "place_random_items n pos item_symbol count rs gr = Some (Inr x)" "f x = Some r"
    by (auto simp: bindO_Some_iff)
  then show thesis
  proof cases
    case 1
    with place_random_items_square [OF assms(2) _ assms(3)] show ?thesis
      by blast
  next
    case 2
    with place_random_items_square [OF assms(2) _ assms(3)] that show ?thesis
      by blast
  qed
qed

lemma place_items_square:
  assumes "square n gr" and "place_items n pos rs gr = Some r" and "1 \<le> n"
  shows "\<exists>gr' rs'. r = Inr (gr', rs')"
proof -
  note run = assms(2) [unfolded place_items_def]
  from run assms(1) obtain gr1 rs1 where sq1: "square n gr1" and
    run1: "bindO (place_random_items n pos ''X'' 4 rs1 gr1) (\<lambda>(gr2, rs2).
     bindO (place_random_items n pos ''K'' 2 rs2 gr2) (\<lambda>(gr3, rs3).
     bindO (place_random_items n pos ''S'' 2 rs3 gr3) (\<lambda>(gr4, rs4).
     bindO (place_random_items n pos ''M'' 1 rs4 gr4) (\<lambda>(gr5, rs5).
     place_random_items n pos ''E'' 1 rs5 gr5)))) = Some r"
    by (elim bindO_placeE [OF _ _ assms(3)]) simp_all
  from run1 sq1 obtain gr2 rs2 where sq2: "square n gr2" and
    run2: "bindO (place_random_items n pos ''K'' 2 rs2 gr2) (\<lambda>(gr3, rs3).
     bindO (place_random_items n pos ''S'' 2 rs3 gr3) (\<lambda>(gr4, rs4).
     bindO (place_random_items n pos ''M'' 1 rs4 gr4) (\<lambda>(gr5, rs5).
     place_random_items n pos ''E'' 1 rs5 gr5))) = Some r"
    by (elim bindO_placeE [OF _ _ assms(3)]) simp_all
  from run2 sq2 obtain gr3 rs3 where sq3: "square n gr3" and
    run3: "bindO (place_random_items n pos ''S'' 2 rs3 gr3) (\<lambda>(gr4, rs4).
     bindO (place_random_items n pos ''M'' 1 rs4 gr4) (\<lambda>(gr5, rs5).
     place_random_items n pos ''E'' 1 rs5 gr5)) = Some r"
    by (elim bindO_placeE [OF _ _ assms(3)]) simp_all
  from run3 sq3 obtain gr4 rs4 where sq4: "square n gr4" and
    run4: "bindO (place_random_items n pos ''M'' 1 rs4 gr4) (\<lambda>(gr5, rs5).
     place_random_items n pos ''E'' 1 rs5 gr5) = Some r"
    by (elim bindO_placeE [OF _ _ assms(3)]) simp_all
  from run4 sq4 obtain gr5 rs5 where sq5: "square n gr5" and
    run5: "place_random_items n pos ''E'' 1 rs5 gr5 = Some r"
    by (elim bindO_placeE [OF _ _ assms(3)]) simp_all
  from place_random_items_square [OF sq5 run5 assms(3)] show ?thesis
    by blast
qed

lemma square_replicate: "square n (replicate (nat n) (replicate (nat n) c))"
  by (simp add: square_def list_all_length)

lemma init_never_raises:
  assumes "1 \<le> n" and "init name n t_start t_log rs = Some r"
  shows "\<exists>g rs'. r = Inr (g, rs')"
proof -
  consider "rs = []" | a where "rs = [a]" | a b rs2 where "rs = a # b # rs2"
    by (cases rs rule: remdups_adj.cases) auto
  then show ?thesis
  proof cases
    case 1
    with assms show ?thesis
      by (simp add: init_def randint_def bindO_def)
  next
    case 2
    with assms show ?thesis
      by (simp add: init_def randint_def bindO_def)
  next
    case 3
    with assms obtain r' where
      p: "place_items n (int a mod n, int b mod n) rs2 (replicate (nat n) (replicate (nat n) '' '')) = Some r'"
      and r: "r = (case r' of Inl e \<Rightarrow> Inl e | Inr (gr, rs3) \<Rightarrow>
                Inr (log_event t_log ''Game started''
                \<lparr>player_name = name, grid_size = n, score = 0, moves = 0, game_over = False,
                 start_time = t_start, grid = gr, player_pos = (int a mod n, int b mod n),
                 inventory = \<lparr>keys = 0, shields = 0, maps_inv = 0, used_map = None\<rparr>,
                 game_log = []\<rparr>, rs3))"
      by (auto simp: init_def randint_def bindO_def Let_def split: option.splits sum.splits)
    from place_items_square [OF square_replicate p assms(1)] r show ?thesis
      by auto
  qed
qed

lemma init_completes:
  assumes "4 \<le> n"
  shows "\<exists>g. init name n t_start t_log demo_draws = Some (Inr (g, []))"
  using assms
  unfolding init_def place_items_def place_random_items_def demo_draws_def Let_def
  by (simp add: place_loop.simps randint_def bindO_def grid_get_in_range grid_set_in_range
        nth_list_update)

subsection \<open>The high-score file\<close>

lemma as_entry_json [simp]: "as_entry (entry_json e) = Inr e"
  by (simp add: as_entry_def entry_json_def)

lemma read_after_dump:
  "read_high_scores (json_dump (JList (map entry_json es)) filename files) filename = Inr es"
  by (simp add: read_high_scores_def json_dump_def json_load_def comp_def)

lemma check_high_scores_result:
  assumes "read_high_scores files filename = Inr es"
  shows "check_high_scores name sc now filename files =
     Inr (list_ex (\<lambda>e. hs_player e = name \<and> hs_score e = sc)
            (take 5 (sort_scores (es @ [\<lparr>hs_player = name, hs_score = sc, hs_date = strftime_full now\<rparr>]))),
          json_dump (JList (map entry_json
            (take 5 (sort_scores (es @ [\<lparr>hs_player = name, hs_score = sc, hs_date = strftime_full now\<rparr>])))))
            filename files)"
  using assms by (simp add: check_high_scores_def bindE_def Let_def)






subsection \<open>Room on the grid\<close>

lemma finite_empties [simp]: "finite (empties n gr)"
proof (rule finite_subset)
  show "empties n gr \<subseteq> {..<nat n} \<times> {..<nat n}"
    by (auto simp: empties_def)
qed simp

lemma empties_replicate: "card (empties n (replicate (nat n) (replicate (nat n) '' ''))) = nat n * nat n"
proof -
  have "empties n (replicate (nat n) (replicate (nat n) '' '')) = {..<nat n} \<times> {..<nat n}"
    by (auto simp: empties_def)
  then show ?thesis
    by (simp add: card_cartesian_product)
qed

lemma empties_update:
  assumes "square n gr" and "y < nat n" and "x < nat n" and "v \<noteq> '' ''"
  shows "empties n (gr[y := (gr ! y)[x := v]]) = empties n gr - {(y, x)}"
  using assms
  by (auto simp: empties_def square_def list_all_length nth_list_update split: if_splits)

lemma place_loop_empties:
  assumes "square n gr"
    and "place_loop n pos item_symbol count placed rs gr = Some (Inr (gr', rs'))"
    and "1 \<le> n" and "item_symbol \<noteq> '' ''"
    and "0 \<le> fst pos" and "0 \<le> snd pos" and "(nat (fst pos), nat (snd pos)) \<in> empties n gr"
  shows "square n gr' \<and> (nat (fst pos), nat (snd pos)) \<in> empties n gr'
       \<and> card (empties n gr') + nat (count - placed) = card (empties n gr)"
  using assms
proof (induction n pos item_symbol count placed rs gr rule: place_loop.induct)
  case (1 n pos item_symbol count placed rs gr)
  note n1 = "1.prems"(3)
  note step = "1.prems"(2) [unfolded place_loop.simps [of n pos item_symbol count placed rs gr]]
  show ?case
  proof (cases "placed < count")
    case False
    with step have "gr' = gr"
      by simp
    with False "1.prems"(1,7) show ?thesis
      by simp
  next
    case True
    consider "rs = []" | a where "rs = [a]" | a b rs2 where "rs = a # b # rs2"
      by (cases rs rule: remdups_adj.cases) auto
    then show ?thesis
    proof cases
      case 1
      with True step n1 show ?thesis
        by (simp add: randint_def)
    next
      case 2
      with True step n1 show ?thesis
        by (simp add: randint_def)
    next
      case 3
      define x where "x = int a mod n"
      define y where "y = int b mod n"
      have rx: "randint 0 (n - 1) rs = Some (Inr (x, b # rs2))"
        and ry: "randint 0 (n - 1) (b # rs2) = Some (Inr (y, rs2))"
        using 3 n1 by (simp_all add: randint_def x_def y_def)
      have range: "0 \<le> x" "x < n" "0 \<le> y" "y < n"
        using n1 by (simp_all add: x_def y_def)
      have get: "grid_get gr y x = Inr (gr ! nat y ! nat x)"
        using square_get [OF "1.prems"(1) range(3,4,1,2)] .
      show ?thesis
      proof (cases "gr ! nat y ! nat x = '' '' \<and> (y, x) \<noteq> pos")
        case hit: True
        let ?gr = "gr[nat y := (gr ! nat y)[nat x := item_symbol]]"
        have set: "grid_set gr y x item_symbol = Inr ?gr"
          using "1.prems"(1) range
          by (auto simp: square_def list_all_length intro!: grid_set_in_range)
        have sq: "square n ?gr"
          using "1.prems"(1) range by (auto simp: square_def list_all_length nth_list_update)
        have yx: "nat y < nat n" "nat x < nat n"
          using range by simp_all
        have e: "empties n ?gr = empties n gr - {(nat y, nat x)}"
          by (rule empties_update [OF "1.prems"(1) yx "1.prems"(4)])
        have target: "(nat y, nat x) \<in> empties n gr"
          using hit yx by (simp add: empties_def)
        have other: "(nat y, nat x) \<noteq> (nat (fst pos), nat (snd pos))"
        proof
          assume "(nat y, nat x) = (nat (fst pos), nat (snd pos))"
          with range "1.prems"(5,6) have "y = fst pos" "x = snd pos"
            by (simp_all add: eq_nat_nat_iff)
          with hit show False
            by (cases pos) simp
        qed
        have pos: "(nat (fst pos), nat (snd pos)) \<in> empties n ?gr"
          unfolding e using other [symmetric] "1.prems"(7) by (simp only: Diff_iff singleton_iff simp_thms)
        have c: "card (empties n ?gr) + 1 = card (empties n gr)"
          using card_Suc_Diff1 [OF finite_empties target] e by simp
        from step True rx ry get hit set
        have run: "place_loop n pos item_symbol count (placed + 1) rs2 ?gr = Some (Inr (gr', rs'))"
          by simp
        from "1.IH"(1) [OF True rx refl refl ry refl refl get hit set sq run n1
            "1.prems"(4,5,6) pos]
        have ih: "square n gr'" "(nat (fst pos), nat (snd pos)) \<in> empties n gr'"
          "card (empties n gr') + nat (count - (placed + 1)) = card (empties n ?gr)"
          by simp_all
        from True have "nat (count - placed) = nat (count - (placed + 1)) + 1"
          by simp
        with ih c show ?thesis
          by simp
      next
        case miss: False
        from step True rx ry get miss
        have run: "place_loop n pos item_symbol count placed rs2 gr = Some (Inr (gr', rs'))"
          by (simp split: if_splits)
        from "1.IH"(2) [OF True rx refl refl ry refl refl get miss "1.prems"(1) run n1
            "1.prems"(4,5,6,7)]
        show ?thesis .
      qed
    qed
  qed
qed

lemma place_random_items_empties:
  assumes "square n gr \<and> (nat (fst pos), nat (snd pos)) \<in> empties n gr \<and> card (empties n gr) + k = m"
    and "place_random_items n pos item_symbol count rs gr = Some (Inr (gr', rs'))"
    and "1 \<le> n" and "item_symbol \<noteq> '' ''" and "0 \<le> fst pos" and "0 \<le> snd pos"
  shows "square n gr' \<and> (nat (fst pos), nat (snd pos)) \<in> empties n gr'
       \<and> card (empties n gr') + (k + nat count) = m"
proof -
  from assms(1) have sq: "square n gr" and p: "(nat (fst pos), nat (snd pos)) \<in> empties n gr"
    and c: "card (empties n gr) + k = m"
    by simp_all
  from place_loop_empties [OF sq assms(2) [unfolded place_random_items_def] assms(3,4,5,6) p] c
  show ?thesis
    by simp
qed

lemma place_items_empties:
  assumes "square n gr" and "(nat (fst pos), nat (snd pos)) \<in> empties n gr"
    and "place_items n pos rs gr = Some (Inr (gr', rs'))"
    and "1 \<le> n" and "0 \<le> fst pos" and "0 \<le> snd pos"
  shows "square n gr' \<and> 14 \<le> card (empties n gr)"
proof -
  from assms(3) obtain gr1 rs1 gr2 rs2 gr3 rs3 gr4 rs4 gr5 rs5 where
    p1: "place_random_items n pos ''T'' 3 rs gr = Some (Inr (gr1, rs1))" and
    p2: "place_random_items n pos ''X'' 4 rs1 gr1 = Some (Inr (gr2, rs2))" and
    p3: "place_random_items n pos ''K'' 2 rs2 gr2 = Some (Inr (gr3, rs3))" and
    p4: "place_random_items n pos ''S'' 2 rs3 gr3 = Some (Inr (gr4, rs4))" and
    p5: "place_random_items n pos ''M'' 1 rs4 gr4 = Some (Inr (gr5, rs5))" and
    p6: "place_random_items n pos ''E'' 1 rs5 gr5 = Some (Inr (gr', rs'))"
    unfolding place_items_def by (auto simp: bindO_Inr_iff)
  note step = place_random_items_empties [OF _ _ assms(4) _ assms(5,6)]
  from assms(1,2) have
    "square n gr \<and> (nat (fst pos), nat (snd pos)) \<in> empties n gr
       \<and> card (empties n gr) + 0 = card (empties n gr)"
    by simp
  from step [OF this p1] have
    "square n gr1 \<and> (nat (fst pos), nat (snd pos)) \<in> empties n gr1
       \<and> card (empties n gr1) + (0 + nat 3) = card (empties n gr)"
    by simp
  from step [OF this p2] have
    "square n gr2 \<and> (nat (fst pos), nat (snd pos)) \<in> empties n gr2
       \<and> card (empties n gr2) + (0 + nat 3 + nat 4) = card (empties n gr)"
    by simp
  from step [OF this p3] have
    "square n gr3 \<and> (nat (fst pos), nat (snd pos)) \<in> empties n gr3
       \<and> card (empties n gr3) + (0 + nat 3 + nat 4 + nat 2) = card (empties n gr)"
    by simp
  from step [OF this p4] have
    "square n gr4 \<and> (nat (fst pos), nat (snd pos)) \<in> empties n gr4
       \<and> card (empties n gr4) + (0 + nat 3 + nat 4 + nat 2 + nat 2) = card (empties n gr)"
    by simp
  from step [OF this p5] have
    "square n gr5 \<and> (nat (fst pos), nat (snd pos)) \<in> empties n gr5
       \<and> card (empties n gr5) + (0 + nat 3 + nat 4 + nat 2 + nat 2 + nat 1) = card (empties n gr)"
    by simp
  from step [OF this p6] have
    last: "(nat (fst pos), nat (snd pos)) \<in> empties n gr'"
      "square n gr'"
      "card (empties n gr') + (0 + nat 3 + nat 4 + nat 2 + nat 2 + nat 1 + nat 1) = card (empties n gr)"
    by simp_all
  from last(1) have "1 \<le> card (empties n gr')"
    by (metis One_nat_def Suc_leI card_gt_0_iff empty_iff finite_empties)
  with last(2,3) show ?thesis
    by simp
qed

lemma init_needs_room:
  assumes "init name n t_start t_log rs = Some (Inr (g, rs'))"
  shows "4 \<le> n"
proof -
  have n1: "1 \<le> n"
  proof (rule ccontr)
    assume "\<not> 1 \<le> n"
    with assms show False
      by (simp add: init_def randint_def bindO_def)
  qed
  from assms n1 obtain a b rs2 gr rs3 where
    p: "place_items n (int a mod n, int b mod n) rs2 (replicate (nat n) (replicate (nat n) '' ''))
          = Some (Inr (gr, rs3))"
    by (auto simp: init_def randint_def bindO_Inr_iff Let_def split: if_splits list.splits)
  have "(nat (int a mod n), nat (int b mod n)) \<in> empties n (replicate (nat n) (replicate (nat n) '' ''))"
    using n1 by (simp add: empties_def)
  from place_items_empties [OF square_replicate _ p n1] this n1
  have "14 \<le> nat n * nat n"
    by (simp add: empties_replicate)
  show ?thesis
  proof (rule ccontr)
    assume "\<not> 4 \<le> n"
    with n1 have "nat n \<le> 3"
      by simp
    then have "nat n * nat n \<le> 3 * 3"
      by (intro mult_le_mono)
    with \<open>14 \<le> nat n * nat n\<close> show False
      by simp
  qed
qed

lemma init_in_bounds:
  assumes "init name n t_start t_log rs = Some (Inr (g, rs'))"
  shows "in_bounds g (player_pos g) \<and> square (grid_size g) (grid g)"
proof -
  from init_needs_room [OF assms] have n1: "1 \<le> n"
    by simp
  from assms n1 obtain a b rs2 gr where
    p: "place_items n (int a mod n, int b mod n) rs2 (replicate (nat n) (replicate (nat n) '' ''))
          = Some (Inr (gr, rs'))" and
    g: "g = log_event t_log ''Game started''
                \<lparr>player_name = name, grid_size = n, score = 0, moves = 0, game_over = False,
                 start_time = t_start, grid = gr, player_pos = (int a mod n, int b mod n),
                 inventory = \<lparr>keys = 0, shields = 0, maps_inv = 0, used_map = None\<rparr>,
                 game_log = []\<rparr>"
    by (auto simp: init_def randint_def bindO_Inr_iff Let_def split: if_splits list.splits)
  have "(nat (int a mod n), nat (int b mod n)) \<in> empties n (replicate (nat n) (replicate (nat n) '' ''))"
    using n1 by (simp add: empties_def)
  from place_items_empties [OF square_replicate _ p n1] this n1 have "square n gr"
    by simp
  with g n1 show ?thesis
    by (simp add: in_bounds_def log_event_def)
qed

lemma clear_cell_square:
  assumes "square n (grid g)" and "0 \<le> fst p" "fst p < n" "0 \<le> snd p" "snd p < n"
  shows "\<exists>gr'. clear_cell p g = Inr (g\<lparr>grid := gr'\<rparr>) \<and> square n gr'"
proof -
  from square_set [OF assms, of "'' ''"] obtain gr'
    where "grid_set (grid g) (fst p) (snd p) '' '' = Inr gr'" "square n gr'"
    by blast
  then show ?thesis
    by (intro exI [of _ gr']) (simp add: clear_cell_def bindE_def)
qed

lemma handle_item_square:
  assumes "square (grid_size g) (grid g)" and "in_bounds g p"
  shows "\<exists>g'. handle_item_interaction t item p g = Inr g'
           \<and> grid_size g' = grid_size g \<and> square (grid_size g) (grid g')"
proof -
  have cl: "\<exists>g'. clear_cell p h = Inr g' \<and> grid_size g' = grid_size g \<and> square (grid_size g) (grid g')"
    if "grid h = grid g" "grid_size h = grid_size g" for h
  proof -
    from assms that have "square (grid_size g) (grid h)" "0 \<le> fst p" "fst p < grid_size g"
      "0 \<le> snd p" "snd p < grid_size g"
      by (simp_all add: in_bounds_def)
    from clear_cell_square [OF this] that(2) show ?thesis
      by auto
  qed
  have treasure: ?thesis if "item = ''T''"
    using that cl [of "log_event t (''Found treasure at '' @ coords p) (g\<lparr>score := score g + 100\<rparr>)"]
    by (simp add: handle_item_interaction_def log_event_def)
  have trap: ?thesis if "item = ''X''"
    using that
      cl [of "log_event t (''Shield used against trap at '' @ coords p)
               (g\<lparr>inventory := (inventory g)\<lparr>shields := shields (inventory g) - 1\<rparr>\<rparr>)"]
      cl [of "log_event t (''Hit by trap at '' @ coords p) (g\<lparr>score := score g - 50\<rparr>)"]
    by (simp add: handle_item_interaction_def log_event_def)
  have key: ?thesis if "item = ''K''"
    using that
      cl [of "log_event t (''Found key at '' @ coords p)
               (g\<lparr>inventory := (inventory g)\<lparr>keys := keys (inventory g) + 1\<rparr>\<rparr>)"]
    by (simp add: handle_item_interaction_def log_event_def)
  have shield: ?thesis if "item = ''S''"
    using that
      cl [of "log_event t (''Found shield at '' @ coords p)
               (g\<lparr>inventory := (inventory g)\<lparr>shields := shields (inventory g) + 1\<rparr>\<rparr>)"]
    by (simp add: handle_item_interaction_def log_event_def)
  have map_item: ?thesis if "item = ''M''"
    using that
      cl [of "log_event t (''Found map at '' @ coords p)
               (g\<lparr>inventory := (inventory g)\<lparr>maps_inv := maps_inv (inventory g) + 1\<rparr>\<rparr>)"]
    by (simp add: handle_item_interaction_def log_event_def)
  have rest: ?thesis
    if "item \<noteq> ''T''" "item \<noteq> ''X''" "item \<noteq> ''K''" "item \<noteq> ''S''" "item \<noteq> ''M''"
    using that assms(1) by (simp add: handle_item_interaction_def log_event_def)
  from treasure trap key shield map_item rest show ?thesis
    by blast
qed

lemma new_position_in_bounds:
  assumes "new_position d g = Some p" and "in_bounds g (player_pos g)"
  shows "in_bounds g p"
  using assms by (auto simp: new_position_def in_bounds_def Let_def split: if_splits)

lemma move_player_total:
  assumes "in_bounds g (player_pos g)" and "square (grid_size g) (grid g)"
  shows "\<exists>b g'. move_player t1 t2 d g = Inr (b, g') \<and> grid_size g' = grid_size g
           \<and> in_bounds g' (player_pos g') \<and> square (grid_size g') (grid g')"
proof (cases "new_position d g")
  case None
  then have "move_player t1 t2 d g = Inr (False, log_event t1 (''Invalid move: '' @ d) g)"
    by (simp add: move_player_def)
  with assms show ?thesis
    by (auto simp: log_event_def in_bounds_def)
next
  case (Some p)
  from new_position_in_bounds [OF Some assms(1)] have p: "in_bounds g p" .
  then have "cell_at g p = Inr (grid g ! nat (fst p) ! nat (snd p))"
    unfolding cell_at_def using assms(2) by (intro square_get) (auto simp: in_bounds_def)
  moreover
  from handle_item_square [of "g\<lparr>moves := moves g + 1\<rparr>" p t1 "grid g ! nat (fst p) ! nat (snd p)"]
    assms(2) p
  obtain g2 where "handle_item_interaction t1 (grid g ! nat (fst p) ! nat (snd p)) p
        (g\<lparr>moves := moves g + 1\<rparr>) = Inr g2"
      "grid_size g2 = grid_size g" "square (grid_size g) (grid g2)"
    by (auto simp: in_bounds_def)
  ultimately have "move_player t1 t2 d g =
      Inr (True, log_event t2 (''Moved '' @ d @ '' to position '' @ coords p) (g2\<lparr>player_pos := p\<rparr>))"
    by (simp add: move_player_valid [OF Some] bindE_def)
  with p \<open>grid_size g2 = grid_size g\<close> \<open>square (grid_size g) (grid g2)\<close> show ?thesis
    by (auto simp: log_event_def in_bounds_def)
qed

lemma demo_game_built: "init ''ann'' 5 noon noon demo_board_draws = Some (Inr (demo_game, []))"
  by code_simp

lemma load_game_needs_room:
  assumes "load_game t_start t_log t_loaded rs filename files = Some (Inr (Some g))"
  shows "4 \<le> grid_size g"
proof -
  from assms have "load_game_body t_start t_log t_loaded rs filename files = Some (Inr g)"
    by (simp add: load_game_Some_iff)
  then obtain name n g0 rs' where i: "init name n t_start t_log rs = Some (Inr (g0, rs'))"
    and "grid_size g = grid_size g0"
    by (auto simp: load_game_body_def bindO_Inr_iff log_event_def)
  with init_needs_room [OF i] init_fields [OF i] show ?thesis
    by simp
qed

section \<open>The claims\<close>

text \<open>
  C1, as the code has it. A valid move onto the Exit cell succeeds, moves the player there
  and counts the move. With no key, \<open>game_over\<close> and the score stay as they were; with at
  least one key, \<open>game_over\<close> becomes true and the score grows by 200. The Exit cell is not
  cleared and \<open>move_player\<close> does not look at \<open>game_over\<close>, so this holds for every such
  move, a repeated one included.
\<close>

theorem exit_interaction:
  assumes "new_position d g = Some p" and "cell_at g p = Inr ''E''"
  shows "\<exists>g'. move_player t1 t2 d g = Inr (True, g')
           \<and> player_pos g' = p \<and> moves g' = moves g + 1
           \<and> grid g' = grid g \<and> inventory g' = inventory g
           \<and> (if keys (inventory g) \<ge> 1
              then game_over g' \<and> score g' = score g + 200
              else game_over g' = game_over g \<and> score g' = score g)"
  using assms
  by (simp add: move_player_valid bindE_def handle_item_interaction_def log_event_def)

text \<open>The same on the demo board, with a key in hand.\<close>

theorem exit_interaction_witness:
  "\<exists>g'. move_player noon noon ''right'' exit_state = Inr (True, g')
      \<and> player_pos g' = (0, 1) \<and> moves g' = 1 \<and> game_over g' \<and> score g' = 200"
proof -
  have h1: "new_position ''right'' exit_state = Some (0, 1)"
    by code_simp
  have h2: "cell_at exit_state (0, 1) = Inr ''E''"
    by code_simp
  have k: "keys (inventory exit_state) \<ge> 1" "moves exit_state = 0" "score exit_state = 0"
    by (simp_all add: exit_state_def demo_game_def)
  from exit_interaction [OF h1 h2, of noon noon] k show ?thesis
    by auto
qed

text \<open>
  C1 as stated asks that a later visit to the Exit adds nothing. With one key, stepping
  onto the Exit gives 200 points; stepping off and on again gives 400.
\<close>

theorem exit_bonus_repeats:
  "map_sum id score (run_calls [Move noon noon ''right''] exit_state) = Inr 200
   \<and> map_sum id score
        (run_calls [Move noon noon ''right'', Move noon noon ''left'', Move noon noon ''right'']
           exit_state)
      = Inr 400"
  by code_simp

text \<open>
  C2. The player stands on the grid, as after \<open>__init__\<close> and after every move
  (\<open>init_in_bounds\<close>, \<open>move_player_total\<close>), and the direction points at a square off
  the grid: \<open>move_player\<close> returns false and the state is the old one with one more log
  entry.
\<close>

theorem move_out_of_bounds:
  assumes "in_bounds g (player_pos g)"
    and "target d (player_pos g) = Some p"
    and "\<not> in_bounds g p"
  shows "\<exists>entry. move_player t1 t2 d g = Inr (False, g\<lparr>game_log := game_log g @ [entry]\<rparr>)"
proof -
  from assms have "new_position d g = None"
    by (auto simp: new_position_def target_def in_bounds_def Let_def split: if_splits)
  then have "move_player t1 t2 d g =
      Inr (False, g\<lparr>game_log := game_log g @ [''['' @ strftime_hms t1 @ ''] '' @ ''Invalid move: '' @ d]\<rparr>)"
    by (simp add: move_player_def log_event_def)
  then show ?thesis
    by blast
qed

text \<open>Up from the top row of the demo board.\<close>

theorem move_out_of_bounds_witness:
  "\<exists>entry. move_player noon noon ''up'' demo_game
      = Inr (False, demo_game\<lparr>game_log := game_log demo_game @ [entry]\<rparr>)"
proof -
  have h1: "in_bounds demo_game (player_pos demo_game)"
    by code_simp
  have h2: "target ''up'' (player_pos demo_game) = Some (- 1, 0)"
    by code_simp
  have h3: "\<not> in_bounds demo_game (- 1, 0)"
    by code_simp
  from move_out_of_bounds [OF h1 h2 h3] show ?thesis .
qed

text \<open>
  C3. A valid move onto a trap succeeds and empties the cell. With a shield, the shield
  count drops by one and the score stays; with none, the score drops by 50. Starting with
  exactly one shield, the first trap costs nothing and leaves no shield, and a second trap
  then costs 50.
\<close>

theorem trap_interaction:
  assumes "new_position d g = Some p" and "cell_at g p = Inr ''X''"
  shows "\<exists>g1. move_player t1 t2 d g = Inr (True, g1) \<and> cell_at g1 p = Inr '' ''
           \<and> (shields (inventory g) \<ge> 1 \<longrightarrow>
                shields (inventory g1) = shields (inventory g) - 1 \<and> score g1 = score g)
           \<and> (shields (inventory g) = 0 \<longrightarrow>
                shields (inventory g1) = 0 \<and> score g1 = score g - 50)
           \<and> (\<forall>d' q u1 u2.
                shields (inventory g) = 1 \<and> new_position d' g1 = Some q \<and> cell_at g1 q = Inr ''X''
                \<longrightarrow> (\<exists>g2. move_player u1 u2 d' g1 = Inr (True, g2) \<and> cell_at g2 q = Inr '' ''
                       \<and> shields (inventory g1) = 0 \<and> score g1 = score g
                       \<and> shields (inventory g2) = 0 \<and> score g2 = score g1 - 50))"
proof -
  from move_onto_trap [OF assms, of t1 t2] obtain g1 where
    m: "move_player t1 t2 d g = Inr (True, g1)" and c: "cell_at g1 p = Inr '' ''" and
    e: "if shields (inventory g) > 0
        then inventory g1 = (inventory g)\<lparr>shields := shields (inventory g) - 1\<rparr> \<and> score g1 = score g
        else inventory g1 = inventory g \<and> score g1 = score g - 50"
    by blast
  have second: "\<exists>g2. move_player u1 u2 d' g1 = Inr (True, g2) \<and> cell_at g2 q = Inr '' ''
                       \<and> shields (inventory g1) = 0 \<and> score g1 = score g
                       \<and> shields (inventory g2) = 0 \<and> score g2 = score g1 - 50"
    if "shields (inventory g) = 1" "new_position d' g1 = Some q" "cell_at g1 q = Inr ''X''"
    for d' q u1 u2
  proof -
    from that(1) e have s1: "shields (inventory g1) = 0" "score g1 = score g"
      by simp_all
    from move_onto_trap [OF that(2,3), of u1 u2] s1 show ?thesis
      by auto
  qed
  have absorbed: "shields (inventory g) \<ge> 1 \<longrightarrow>
      shields (inventory g1) = shields (inventory g) - 1 \<and> score g1 = score g"
    using e by auto
  have hit: "shields (inventory g) = 0 \<longrightarrow>
      shields (inventory g1) = 0 \<and> score g1 = score g - 50"
    using e by auto
  have twice: "\<forall>d' q u1 u2.
      shields (inventory g) = 1 \<and> new_position d' g1 = Some q \<and> cell_at g1 q = Inr ''X''
      \<longrightarrow> (\<exists>g2. move_player u1 u2 d' g1 = Inr (True, g2) \<and> cell_at g2 q = Inr '' ''
             \<and> shields (inventory g1) = 0 \<and> score g1 = score g
             \<and> shields (inventory g2) = 0 \<and> score g2 = score g1 - 50)"
    using second by blast
  from m c absorbed hit twice show ?thesis
    by blast
qed

text \<open>One shield and two traps in a row on the demo board.\<close>

theorem trap_interaction_witness:
  "\<exists>g1 g2. move_player noon noon ''right'' trap_state = Inr (True, g1)
      \<and> shields (inventory g1) = 0 \<and> score g1 = 0 \<and> cell_at g1 (1, 1) = Inr '' ''
      \<and> move_player noon noon ''right'' g1 = Inr (True, g2)
      \<and> shields (inventory g2) = 0 \<and> score g2 = - 50 \<and> cell_at g2 (1, 2) = Inr '' ''"
proof -
  have h1: "new_position ''right'' trap_state = Some (1, 1)"
    by code_simp
  have h2: "cell_at trap_state (1, 1) = Inr ''X''"
    by code_simp
  have s: "shields (inventory trap_state) = 1" "score trap_state = 0"
    by (simp_all add: trap_state_def demo_game_def)
  from trap_interaction [OF h1 h2, of noon noon] obtain g1 where
    m: "move_player noon noon ''right'' trap_state = Inr (True, g1)" and
    c: "cell_at g1 (1, 1) = Inr '' ''" and
    twice: "\<And>d' q u1 u2. shields (inventory trap_state) = 1 \<Longrightarrow> new_position d' g1 = Some q
      \<Longrightarrow> cell_at g1 q = Inr ''X''
      \<Longrightarrow> \<exists>g2. move_player u1 u2 d' g1 = Inr (True, g2) \<and> cell_at g2 q = Inr '' ''
             \<and> shields (inventory g1) = 0 \<and> score g1 = score trap_state
             \<and> shields (inventory g2) = 0 \<and> score g2 = score g1 - 50"
    by blast
  have "new_position ''right'' (snd (projr (move_player noon noon ''right'' trap_state))) = Some (1, 2)"
    by code_simp
  with m have h3: "new_position ''right'' g1 = Some (1, 2)"
    by simp
  have "cell_at (snd (projr (move_player noon noon ''right'' trap_state))) (1, 2) = Inr ''X''"
    by code_simp
  with m have h4: "cell_at g1 (1, 2) = Inr ''X''"
    by simp
  from twice [OF s(1) h3 h4, of noon noon] m c s show ?thesis
    by auto
qed

text \<open>
  C4. A valid move onto a treasure succeeds, adds exactly 100 to the score and empties the
  cell. After any further calls of \<open>move_player\<close> and \<open>use_map\<close> on the game the
  cell is still empty, and a move onto it changes neither the score nor the inventory.
\<close>

theorem treasure_interaction:
  assumes "new_position d g = Some p" and "cell_at g p = Inr ''T''"
  shows "\<exists>g1. move_player t1 t2 d g = Inr (True, g1) \<and> score g1 = score g + 100
           \<and> cell_at g1 p = Inr '' ''
           \<and> (\<forall>cs g2. run_calls cs g1 = Inr g2 \<longrightarrow>
                cell_at g2 p = Inr '' ''
                \<and> (\<forall>d' u1 u2. new_position d' g2 = Some p \<longrightarrow>
                     (\<exists>g3. move_player u1 u2 d' g2 = Inr (True, g3)
                        \<and> score g3 = score g2 \<and> inventory g3 = inventory g2
                        \<and> cell_at g3 p = Inr '' '')))"
proof -
  let ?g0 = "log_event t1 (''Found treasure at '' @ coords p)
               (g\<lparr>moves := moves g + 1, score := score g + 100\<rparr>)"
  have "cell_at ?g0 p = Inr ''T''"
    using assms(2) by simp
  from clear_cell_after_get [OF this] obtain gr
    where cl: "clear_cell p ?g0 = Inr (?g0\<lparr>grid := gr\<rparr>)"
      and gr: "grid_get gr (fst p) (snd p) = Inr '' ''"
    by blast
  define g1 where "g1 = log_event t2 (''Moved '' @ d @ '' to position '' @ coords p)
                          (?g0\<lparr>grid := gr, player_pos := p\<rparr>)"
  have m: "move_player t1 t2 d g = Inr (True, g1)"
    using assms cl by (simp add: move_player_valid bindE_def handle_item_interaction_def g1_def)
  have s: "score g1 = score g + 100"
    by (simp add: g1_def log_event_def)
  have c: "cell_at g1 p = Inr '' ''"
    using gr by (simp add: g1_def cell_at_def log_event_def)
  have later: "cell_at g2 p = Inr '' ''
                \<and> (\<forall>d' u1 u2. new_position d' g2 = Some p \<longrightarrow>
                     (\<exists>g3. move_player u1 u2 d' g2 = Inr (True, g3)
                        \<and> score g3 = score g2 \<and> inventory g3 = inventory g2
                        \<and> cell_at g3 p = Inr '' ''))"
    if r: "run_calls cs g1 = Inr g2" for cs g2
  proof -
    from run_calls_keeps_empty [OF r c] have e: "cell_at g2 p = Inr '' ''" .
    have "\<exists>g3. move_player u1 u2 d' g2 = Inr (True, g3)
             \<and> score g3 = score g2 \<and> inventory g3 = inventory g2 \<and> cell_at g3 p = Inr '' ''"
      if "new_position d' g2 = Some p" for d' u1 u2
      using move_onto_empty [OF that e, of u1 u2] e by (simp add: log_event_def cell_at_def)
    with e show ?thesis
      by blast
  qed
  from m s c later show ?thesis
    by blast
qed

text \<open>Down onto a treasure, around by the trap and the exit, and down onto the same cell.\<close>

theorem treasure_interaction_witness:
  "\<exists>g1 g2 g3. move_player noon noon ''down'' demo_game = Inr (True, g1) \<and> score g1 = 100
      \<and> cell_at g1 (1, 0) = Inr '' ''
      \<and> run_calls [Move noon noon ''right'', Move noon noon ''up'', Move noon noon ''left''] g1 = Inr g2
      \<and> cell_at g2 (1, 0) = Inr '' ''
      \<and> move_player noon noon ''down'' g2 = Inr (True, g3)
      \<and> score g3 = score g2 \<and> inventory g3 = inventory g2"
proof -
  let ?cs = "[Move noon noon ''right'', Move noon noon ''up'', Move noon noon ''left'']"
  have h1: "new_position ''down'' demo_game = Some (1, 0)"
    by code_simp
  have h2: "cell_at demo_game (1, 0) = Inr ''T''"
    by code_simp
  from treasure_interaction [OF h1 h2, of noon noon] obtain g1 where
    m: "move_player noon noon ''down'' demo_game = Inr (True, g1)" and
    s: "score g1 = score demo_game + 100" and
    c: "cell_at g1 (1, 0) = Inr '' ''" and
    later: "\<And>cs g2 d' u1 u2. run_calls cs g1 = Inr g2 \<Longrightarrow> new_position d' g2 = Some (1, 0)
      \<Longrightarrow> cell_at g2 (1, 0) = Inr '' ''
          \<and> (\<exists>g3. move_player u1 u2 d' g2 = Inr (True, g3)
                \<and> score g3 = score g2 \<and> inventory g3 = inventory g2)"
    by blast
  have "case run_calls ?cs (snd (projr (move_player noon noon ''down'' demo_game))) of
          Inl e \<Rightarrow> False | Inr g2 \<Rightarrow> True"
    by code_simp
  with m obtain g2 where r: "run_calls ?cs g1 = Inr g2"
    by (cases "run_calls ?cs g1") auto
  have "new_position ''down''
          (projr (run_calls ?cs (snd (projr (move_player noon noon ''down'' demo_game))))) = Some (1, 0)"
    by code_simp
  with m r have h3: "new_position ''down'' g2 = Some (1, 0)"
    by simp
  have z: "score demo_game = 0"
    by (simp add: demo_game_def)
  from later [OF r h3, of noon noon] m s c r z show ?thesis
    by auto
qed

text \<open>
  C5. A game on a grid of side four or more is saved and the file is loaded. (A smaller
  grid has too few cells for the thirteen items and the player, so neither \<open>__init__\<close>
  nor \<open>load_game\<close> ever returns a game on one: \<open>init_needs_room\<close>,
  \<open>load_game_needs_room\<close>.) The load completes on suitable random numbers, and every
  load that completes returns a game with the score, move count, position, inventory and
  grid that were saved.
\<close>

theorem save_load_round_trip:
  assumes "4 \<le> grid_size g"
  shows "(\<exists>g'. load_game t_start t_log t_loaded demo_draws filename
                (snd (save_game now filename g files)) = Some (Inr (Some g')))
       \<and> (\<forall>rs r. load_game t_start t_log t_loaded rs filename
                    (snd (save_game now filename g files)) = Some r \<longrightarrow>
            (\<exists>g'. r = Inr (Some g') \<and> score g' = score g \<and> moves g' = moves g
                \<and> player_pos g' = player_pos g \<and> inventory g' = inventory g
                \<and> grid g' = grid g))"
proof (intro conjI allI impI)
  from init_completes [OF assms] obtain g0
    where "init (player_name g) (grid_size g) t_start t_log demo_draws = Some (Inr (g0, []))"
    by blast
  then show "\<exists>g'. load_game t_start t_log t_loaded demo_draws filename
                (snd (save_game now filename g files)) = Some (Inr (Some g'))"
    by (simp add: load_game_def load_saved_body bindO_def)
next
  fix rs r
  assume l: "load_game t_start t_log t_loaded rs filename (snd (save_game now filename g files)) = Some r"
  let ?k = "\<lambda>(game, rs'). Some (Inr (log_event t_loaded (''Game loaded from '' @ filename)
         (game\<lparr>score := score g, moves := moves g, player_pos := player_pos g, grid := grid g,
                inventory := inventory g, game_log := game_log g\<rparr>)))"
  from l obtain r0 where
    b: "bindO (init (player_name g) (grid_size g) t_start t_log rs) ?k = Some r0"
    by (auto simp: load_game_def load_saved_body split: option.splits)
  from assms have n1: "1 \<le> grid_size g"
    by simp
  from b init_never_raises [OF n1] obtain g0 rs' where
    i: "init (player_name g) (grid_size g) t_start t_log rs = Some (Inr (g0, rs'))"
    by (fastforce simp: bindO_Some_iff)
  with l show "\<exists>g'. r = Inr (Some g') \<and> score g' = score g \<and> moves g' = moves g
                \<and> player_pos g' = player_pos g \<and> inventory g' = inventory g
                \<and> grid g' = grid g"
    by (auto simp: load_game_def load_saved_body bindO_def log_event_def)
qed

text \<open>A game of side five, saved at noon and loaded at one o'clock.\<close>

theorem save_load_round_trip_witness:
  "\<exists>g'. load_game one_o_clock one_o_clock one_o_clock demo_draws ''saved_game.json''
           (snd (save_game noon ''saved_game.json'' trap_state Map.empty)) = Some (Inr (Some g'))
      \<and> score g' = 0 \<and> moves g' = 0 \<and> player_pos g' = (1, 0)
      \<and> inventory g' = \<lparr>keys = 0, shields = 1, maps_inv = 0, used_map = None\<rparr>
      \<and> grid g' = grid demo_game"
proof -
  have h: "4 \<le> grid_size trap_state"
    by (simp add: trap_state_def demo_game_def)
  have v: "score trap_state = 0" "moves trap_state = 0" "player_pos trap_state = (1, 0)"
    "inventory trap_state = \<lparr>keys = 0, shields = 1, maps_inv = 0, used_map = None\<rparr>"
    "grid trap_state = grid demo_game"
    by (simp_all add: trap_state_def demo_game_def)
  from save_load_round_trip [OF h, of one_o_clock one_o_clock one_o_clock "''saved_game.json''" noon Map.empty]
  show ?thesis
    unfolding v by blast
qed



text \<open>
  C7, as the code has it. \<open>check_high_scores\<close> returns true exactly when the five entries
  it wrote include one with the given player name and score. That is so whenever the new
  entry itself is among them.
\<close>

theorem high_score_flag:
  assumes "read_high_scores files filename = Inr es"
  shows "\<exists>b files' top. check_high_scores name sc now filename files = Inr (b, files')
           \<and> read_high_scores files' filename = Inr top
           \<and> top = take 5 (sort_scores
                 (es @ [\<lparr>hs_player = name, hs_score = sc, hs_date = strftime_full now\<rparr>]))
           \<and> (b \<longleftrightarrow> (\<exists>e \<in> set top. hs_player e = name \<and> hs_score e = sc))
           \<and> (\<lparr>hs_player = name, hs_score = sc, hs_date = strftime_full now\<rparr> \<in> set top \<longrightarrow> b)"
proof -
  define new where "new = \<lparr>hs_player = name, hs_score = sc, hs_date = strftime_full now\<rparr>"
  define top where "top = take 5 (sort_scores (es @ [new]))"
  have run: "check_high_scores name sc now filename files =
      Inr (list_ex (\<lambda>e. hs_player e = name \<and> hs_score e = sc) top,
           json_dump (JList (map entry_json top)) filename files)"
    unfolding top_def new_def by (rule check_high_scores_result [OF assms])
  have reread: "read_high_scores (json_dump (JList (map entry_json top)) filename files) filename = Inr top"
    by (rule read_after_dump)
  have flag: "list_ex (\<lambda>e. hs_player e = name \<and> hs_score e = sc) top
      \<longleftrightarrow> (\<exists>e \<in> set top. hs_player e = name \<and> hs_score e = sc)"
    by (simp add: list_ex_iff)
  have own: "new \<in> set top \<longrightarrow> list_ex (\<lambda>e. hs_player e = name \<and> hs_score e = sc) top"
    unfolding flag by (auto simp: new_def intro: bexI [of _ new])
  from run reread flag own show ?thesis
    unfolding top_def new_def by blast
qed

text \<open>A score too low for a file of seven entries.\<close>

theorem high_score_flag_witness:
  "\<exists>files' top. check_high_scores ''zo'' 15 noon ''high_scores.json'' long_board = Inr (False, files')
      \<and> read_high_scores files' ''high_scores.json'' = Inr top
      \<and> \<not> (\<exists>e \<in> set top. hs_player e = ''zo'' \<and> hs_score e = 15)"
proof -
  have "case read_high_scores long_board ''high_scores.json'' of Inr es \<Rightarrow> True | Inl e \<Rightarrow> False"
    by code_simp
  then obtain es where h1: "read_high_scores long_board ''high_scores.json'' = Inr es"
    by (auto split: sum.splits)
  have "map_sum id fst (check_high_scores ''zo'' 15 noon ''high_scores.json'' long_board) = Inr False"
    by code_simp
  with high_score_flag [OF h1, of "''zo''" 15 noon] show ?thesis
    by auto
qed

text \<open>
  C7 as stated asks for true only if the new entry itself was kept. The file holds five
  entries of bob with 100 points; bob scores 100 again. The stable sort puts the new entry
  sixth, so it is cut, yet the call returns true because an old entry matches.
\<close>

theorem high_score_flag_counterexample:
  "map_sum id fst (check_high_scores ''bob'' 100 noon ''high_scores.json'' full_board) = Inr True
   \<and> persisted ''high_scores.json''
        (check_high_scores ''bob'' 100 noon ''high_scores.json'' full_board)
       = Inr [old_entry, old_entry, old_entry, old_entry, old_entry]
   \<and> \<lparr>hs_player = ''bob'', hs_score = 100, hs_date = strftime_full noon\<rparr>
        \<notin> set [old_entry, old_entry, old_entry, old_entry, old_entry]"
  by code_simp



text \<open>
  C9. \<open>display_grid\<close> returns the state it was given, whatever the reveal-all flag and
  whether or not the rendering raises.
\<close>

theorem display_grid_frame: "snd (display_grid reveal_all g) = g"
  by (simp add: display_grid_def)

text \<open>
  C10. The saved document has no entry \<open>game_over\<close> or \<open>start_time\<close>. Whatever the file
  holds, a game that \<open>load_game\<close> returns is not over and its \<open>start_time\<close> is the
  clock reading taken by \<open>__init__\<close> during the load, so the elapsed time that
  \<open>get_status\<close> reports counts from there.
\<close>

theorem loaded_game_starts_afresh:
  assumes "load_game t_start t_log t_loaded rs filename files = Some (Inr (Some g'))"
  shows "subscript (game_data now g) ''game_over'' = Inl KeyError
       \<and> subscript (game_data now g) ''start_time'' = Inl KeyError
       \<and> \<not> game_over g' \<and> start_time g' = t_start
       \<and> st_elapsed_time (get_status later g') = timedelta_seconds later t_start"
  using load_game_body_fields [of t_start t_log t_loaded rs filename files g'] assms
  by (simp add: load_game_Some_iff subscript_def game_data_def get_status_def)

text \<open>A won game, saved at noon and loaded at one o'clock.\<close>

theorem loaded_game_starts_afresh_witness:
  "\<exists>g'. load_game one_o_clock one_o_clock one_o_clock demo_draws ''saved_game.json''
           (snd (save_game noon ''saved_game.json'' (exit_state\<lparr>game_over := True\<rparr>) Map.empty))
          = Some (Inr (Some g'))
      \<and> \<not> game_over g' \<and> start_time g' = one_o_clock
      \<and> st_elapsed_time (get_status (one_o_clock\<lparr>dt_minute := 2\<rparr>) g') = 120"
proof -
  let ?files = "snd (save_game noon ''saved_game.json'' (exit_state\<lparr>game_over := True\<rparr>) Map.empty)"
  have "case load_game one_o_clock one_o_clock one_o_clock demo_draws ''saved_game.json'' ?files of
          Some (Inr (Some g')) \<Rightarrow> True | _ \<Rightarrow> False"
    by code_simp
  then obtain g' where
    l: "load_game one_o_clock one_o_clock one_o_clock demo_draws ''saved_game.json'' ?files
          = Some (Inr (Some g'))"
    by (auto split: option.splits sum.splits)
  have e: "timedelta_seconds (one_o_clock\<lparr>dt_minute := 2\<rparr>) one_o_clock = 120"
    by code_simp
  from loaded_game_starts_afresh [OF l, of noon exit_state "one_o_clock\<lparr>dt_minute := 2\<rparr>"] l e
  show ?thesis
    by simp
qed

end
